theory Spec2Isabelle
  imports Main "HOL-Library.Word"
begin

section \<open>Go standard-library functions the code calls\<close>

text \<open>
  \<^verbatim>\<open>path.Ext\<close> scans the path from its last byte towards the front, stops at a
  slash, and returns the suffix that starts at the first dot it meets (the empty string
  when it meets none). \<open>ext_scan\<close> walks the reversed path and carries the bytes
  already passed.
\<close>

fun ext_scan :: "string \<Rightarrow> string \<Rightarrow> string" where
  "ext_scan [] seen = []"
| "ext_scan (c # cs) seen =
     (if c = CHR ''/'' then []
      else if c = CHR ''.'' then c # seen
      else ext_scan cs (c # seen))"

definition Ext :: "string \<Rightarrow> string" where
  "Ext p = ext_scan (rev p) []"

text \<open>\<^verbatim>\<open>strings.HasSuffix\<close> and \<^verbatim>\<open>strings.TrimSuffix\<close>.\<close>

definition HasSuffix :: "string \<Rightarrow> string \<Rightarrow> bool" where
  "HasSuffix s suf \<longleftrightarrow>
     length suf \<le> length s \<and> drop (length s - length suf) s = suf"

definition TrimSuffix :: "string \<Rightarrow> string \<Rightarrow> string" where
  "TrimSuffix s suf = (if HasSuffix s suf then take (length s - length suf) s else s)"

text \<open>\<^verbatim>\<open>strconv.Itoa\<close>: the decimal rendering of a signed integer.\<close>

definition digit_char :: "nat \<Rightarrow> char" where
  "digit_char d = ''0123456789'' ! d"

function decimal :: "nat \<Rightarrow> string" where
  "decimal n = (if n < 10 then [digit_char n] else decimal (n div 10) @ [digit_char (n mod 10)])"
  by pat_completeness auto
termination
  by (relation "measure id") auto

declare decimal.simps [simp del]

definition Itoa :: "int \<Rightarrow> string" where
  "Itoa i = (if i < 0 then CHR ''-'' # decimal (nat (- i)) else decimal (nat i))"

text \<open>\<^verbatim>\<open>strings.Join\<close>.\<close>

fun Join :: "string list \<Rightarrow> string \<Rightarrow> string" where
  "Join [] sep = []"
| "Join [s] sep = s"
| "Join (s # t # ss) sep = s @ sep @ Join (t # ss) sep"

section \<open>Filename resolution: GetUniqueName\<close>

text \<open>
  The file system enters only through \<^verbatim>\<open>os.Stat\<close>: \<open>fs\<close> is the set of paths
  for which the call returns no error. The counter \<open>i\<close> is a Go \<^verbatim>\<open>int\<close>, 64 bits
  wide, so \<^verbatim>\<open>i++\<close> wraps. The loop has no bound of its own; it is a partial
  function whose value \<open>None\<close> stands for a run that never returns.
\<close>

partial_function (option) unique_loop ::
  "string set \<Rightarrow> string \<Rightarrow> string \<Rightarrow> 64 word \<Rightarrow> string \<Rightarrow> string option" where
  "unique_loop fs f ext i newName =
     (if newName \<in> fs
      then unique_loop fs f ext (i + 1)
             (TrimSuffix f ext @ '' ('' @ Itoa (sint i) @ '')'' @ ext)
      else Some newName)"

definition GetUniqueName :: "string set \<Rightarrow> string \<Rightarrow> string option" where
  "GetUniqueName fs f = unique_loop fs f (Ext f) 1 f"

section \<open>The relational store\<close>

text \<open>
  One record per table of \<^verbatim>\<open>initialSchema\<close>, one field per column. The
  \<^verbatim>\<open>created_on\<close> and \<^verbatim>\<open>updated_on\<close> columns are left out: they depend on
  the wall clock and no operation reads them. A table is the list of its rows in the
  order a scan yields them, which for these tables is ascending rowid: an insert appends
  a row whose id is one more than the largest id in use. Timestamps of files
  (\<^verbatim>\<open>time.Time\<close>) and all row ids (\<^verbatim>\<open>int64\<close>) are integers; the largest
  rowid is never reached.
\<close>

record book_row =
  b_id :: int
  b_series :: string
  b_title :: string

record file_row =
  f_id :: int
  f_book_id :: int
  f_extension :: string
  f_original_filename :: string
  f_filename :: string
  f_file_size :: int
  f_file_mtime :: int
  f_hash :: string
  f_source :: string

record author_row =
  a_id :: int
  a_name :: string

record book_author_row =
  ba_id :: int
  ba_book_id :: int
  ba_author_id :: int

record tag_row =
  t_id :: int
  t_name :: string

record file_tag_row =
  ft_id :: int
  ft_file_id :: int
  ft_tag_id :: int

text \<open>
  A row of the full-text table \<^verbatim>\<open>books_fts\<close>. No statement of the library ever
  sets the \<^verbatim>\<open>filename\<close> column, so it can be NULL (\<open>None\<close>).
\<close>

record fts_row =
  fts_docid :: int
  fts_author :: string
  fts_series :: string
  fts_title :: string
  fts_extension :: string
  fts_tags :: string
  fts_filename :: "string option"
  fts_source :: string

record db =
  books :: "book_row list"
  files :: "file_row list"
  authors :: "author_row list"
  books_authors :: "book_author_row list"
  tags :: "tag_row list"
  files_tags :: "file_tag_row list"
  books_fts :: "fts_row list"

text \<open>The Go values handed to and returned by the library.\<close>

record BookFile =
  bf_ID :: int
  bf_Extension :: string
  bf_OriginalFilename :: string
  bf_CurrentFilename :: string
  bf_FileSize :: int
  bf_FileMtime :: int
  bf_Hash :: string
  bf_Source :: string
  bf_Tags :: "string list"

record Book =
  bk_ID :: int
  bk_Series :: string
  bk_Title :: string
  bk_Authors :: "string list"
  bk_Files :: "BookFile list"

text \<open>
  Every error the modelled code returns, and the two ways it can panic. Failures of the
  storage medium itself (a query that cannot be run at all) are not modelled; a statement
  fails only when a constraint of the schema rejects it.
\<close>

datatype error =
    ImportNotOneFile
  | DuplicateBook int
  | ConstraintFailed
  | IndexNotOneFile
  | NotInFTS int
  | MoveNotOneFile
  | FileSystemError
  | BookNotFound
  | BookExistsError int
  | NoOriginalBook
  | ErrNoRows
  | WrongNoOfBooks
  | QueryFailed
  | PanicIndexOutOfRange
  | PanicInconsistent

definition is_panic :: "error \<Rightarrow> bool" where
  "is_panic e \<longleftrightarrow> e = PanicIndexOutOfRange \<or> e = PanicInconsistent"

subsection \<open>Statements\<close>

text \<open>The rowid SQLite gives a row inserted without one.\<close>

definition next_id :: "int list \<Rightarrow> int" where
  "next_id ids = (if ids = [] then 1 else Max (set ids) + 1)"

text \<open>
  Deletions, with the cascades the schema declares (the connect hook of
  \<^verbatim>\<open>sqlite3async\<close> turns foreign keys on): a deleted tag or file takes its
  \<^verbatim>\<open>files_tags\<close> rows with it, a deleted author its \<^verbatim>\<open>books_authors\<close> rows, a
  deleted book its files and its \<^verbatim>\<open>books_authors\<close> rows.
\<close>

definition delete_tags :: "int list \<Rightarrow> db \<Rightarrow> db" where
  "delete_tags ids tx =
     (let gone = map t_id (filter (\<lambda>t. t_id t \<in> set ids) (tags tx))
      in tx\<lparr>tags := filter (\<lambda>t. t_id t \<notin> set ids) (tags tx),
            files_tags := filter (\<lambda>l. ft_tag_id l \<notin> set gone) (files_tags tx)\<rparr>)"

definition delete_authors :: "int list \<Rightarrow> db \<Rightarrow> db" where
  "delete_authors ids tx =
     (let gone = map a_id (filter (\<lambda>a. a_id a \<in> set ids) (authors tx))
      in tx\<lparr>authors := filter (\<lambda>a. a_id a \<notin> set ids) (authors tx),
            books_authors := filter (\<lambda>l. ba_author_id l \<notin> set gone) (books_authors tx)\<rparr>)"

definition delete_files :: "(file_row \<Rightarrow> bool) \<Rightarrow> db \<Rightarrow> db" where
  "delete_files P tx =
     (let gone = map f_id (filter P (files tx))
      in tx\<lparr>files := filter (\<lambda>f. \<not> P f) (files tx),
            files_tags := filter (\<lambda>l. ft_file_id l \<notin> set gone) (files_tags tx)\<rparr>)"

definition delete_books :: "int list \<Rightarrow> db \<Rightarrow> db" where
  "delete_books ids tx =
     (let gone = map b_id (filter (\<lambda>b. b_id b \<in> set ids) (books tx));
          tx1 = delete_files (\<lambda>f. f_book_id f \<in> set gone) tx
      in tx1\<lparr>books := filter (\<lambda>b. b_id b \<notin> set ids) (books tx),
             books_authors := filter (\<lambda>l. ba_book_id l \<notin> set gone) (books_authors tx)\<rparr>)"

definition delete_fts :: "int list \<Rightarrow> db \<Rightarrow> db" where
  "delete_fts ids tx = tx\<lparr>books_fts := filter (\<lambda>d. fts_docid d \<notin> set ids) (books_fts tx)\<rparr>"

subsection \<open>Go maps from ids to slices\<close>

text \<open>
  A map filled by \<^verbatim>\<open>m[k] = append(m[k], v)\<close> is an association list; a key that was
  never stored reads as the nil slice.
\<close>

fun append_at :: "int \<Rightarrow> 'a \<Rightarrow> (int \<times> 'a list) list \<Rightarrow> (int \<times> 'a list) list" where
  "append_at k v [] = [(k, [v])]"
| "append_at k v ((k', vs) # m) =
     (if k = k' then (k', vs @ [v]) # m else (k', vs) # append_at k v m)"

definition collect :: "(int \<times> 'a) list \<Rightarrow> (int \<times> 'a list) list" where
  "collect rows = foldl (\<lambda>m (k, v). append_at k v m) [] rows"

definition lookup :: "(int \<times> 'a list) list \<Rightarrow> int \<Rightarrow> 'a list" where
  "lookup m k = (case map_of m k of None \<Rightarrow> [] | Some vs \<Rightarrow> vs)"

subsection \<open>Reading books and files back\<close>

definition getAuthorsByBookIds :: "db \<Rightarrow> int list \<Rightarrow> (int \<times> string list) list" where
  "getAuthorsByBookIds tx ids =
     (if ids = [] then []
      else collect (concat (map
             (\<lambda>l. map (\<lambda>a. (ba_book_id l, a_name a))
                    (filter (\<lambda>a. a_id a = ba_author_id l) (authors tx)))
             (filter (\<lambda>l. ba_book_id l \<in> set ids) (sort_key ba_id (books_authors tx))))))"

definition getTagsByFileIds :: "db \<Rightarrow> int list \<Rightarrow> (int \<times> string list) list" where
  "getTagsByFileIds tx ids =
     (if ids = [] then []
      else collect (concat (map
             (\<lambda>l. map (\<lambda>t. (ft_file_id l, t_name t))
                    (filter (\<lambda>t. t_id t = ft_tag_id l) (tags tx)))
             (filter (\<lambda>l. ft_file_id l \<in> set ids) (sort_key ft_id (files_tags tx))))))"

definition scan_file :: "(int \<times> string list) list \<Rightarrow> file_row \<Rightarrow> BookFile" where
  "scan_file tagMap f =
     \<lparr>bf_ID = f_id f, bf_Extension = f_extension f,
      bf_OriginalFilename = f_original_filename f, bf_CurrentFilename = f_filename f,
      bf_FileSize = f_file_size f, bf_FileMtime = f_file_mtime f, bf_Hash = f_hash f,
      bf_Source = f_source f, bf_Tags = lookup tagMap (f_id f)\<rparr>"

definition getFilesByID :: "db \<Rightarrow> int list \<Rightarrow> BookFile list" where
  "getFilesByID tx ids =
     (if ids = [] then []
      else map (scan_file (getTagsByFileIds tx ids))
             (filter (\<lambda>f. f_id f \<in> set ids) (files tx)))"

definition getFilesByBookIds :: "db \<Rightarrow> int list \<Rightarrow> (int \<times> BookFile list) list" where
  "getFilesByBookIds tx ids =
     (if ids = [] then []
      else map (\<lambda>(bookID, fileIDs). (bookID, getFilesByID tx fileIDs))
             (collect (map (\<lambda>f. (f_book_id f, f_id f))
                        (filter (\<lambda>f. f_book_id f \<in> set ids) (files tx)))))"

definition getBooksByID :: "db \<Rightarrow> int list \<Rightarrow> Book list" where
  "getBooksByID tx ids =
     (if ids = [] then []
      else map (\<lambda>r. \<lparr>bk_ID = b_id r, bk_Series = b_series r, bk_Title = b_title r,
                       bk_Authors = lookup (getAuthorsByBookIds tx ids) (b_id r),
                       bk_Files = lookup (getFilesByBookIds tx ids) (b_id r)\<rparr>)
             (filter (\<lambda>r. b_id r \<in> set ids) (books tx)))"

text \<open>
  The exported \<^verbatim>\<open>GetBooksByID\<close> runs the same query in a transaction of its own,
  on the state that transaction sees.
\<close>

definition GetBooksByID :: "db \<Rightarrow> int list \<Rightarrow> Book list" where
  "GetBooksByID lib ids = (if ids = [] then [] else getBooksByID lib ids)"

fun authorsEqual :: "string list \<Rightarrow> string list \<Rightarrow> bool" where
  "authorsEqual a b =
     (if length a \<noteq> length b then False
      else list_all (\<lambda>i. a ! i = b ! i) [0..<length a])"

text \<open>
  \<^verbatim>\<open>getBookIDByTitleAndAuthors\<close> ranges over a Go map, whose iteration order is
  not fixed. The order is the parameter \<open>ord\<close>, which rearranges the entries.
\<close>

definition getBookIDByTitleAndAuthors ::
  "((int \<times> string list) list \<Rightarrow> (int \<times> string list) list) \<Rightarrow> db \<Rightarrow> string \<Rightarrow> string list
     \<Rightarrow> int \<times> bool" where
  "getBookIDByTitleAndAuthors ord tx title as =
     (let ids = map b_id (filter (\<lambda>r. b_title r = title) (books tx));
          authorMap = getAuthorsByBookIds tx ids
      in case find (\<lambda>(bookID, authorNames). authorsEqual as authorNames) (ord authorMap) of
           Some (bookID, authorNames) \<Rightarrow> (bookID, True)
         | None \<Rightarrow> (0, False))"

subsection \<open>Inserting authors, tags and files\<close>

text \<open>
  \<^verbatim>\<open>insertAuthor\<close> looks the author up by name, inserts it when there is none, and
  links it to the book with \<^verbatim>\<open>insert or ignore\<close>: a pair that is already linked is
  left alone, a pair whose book does not exist violates the foreign key.
\<close>

definition insertAuthor :: "db \<Rightarrow> string \<Rightarrow> Book \<Rightarrow> error + db" where
  "insertAuthor tx author book =
     (let (tx1, authorID) =
        (case filter (\<lambda>a. a_name a = author) (authors tx) of
           a # _ \<Rightarrow> (tx, a_id a)
         | [] \<Rightarrow>
             (let i = next_id (map a_id (authors tx))
              in (tx\<lparr>authors := authors tx @ [\<lparr>a_id = i, a_name = author\<rparr>]\<rparr>, i)))
      in if list_ex (\<lambda>l. ba_book_id l = bk_ID book \<and> ba_author_id l = authorID)
              (books_authors tx1)
         then Inr tx1
         else if bk_ID book \<notin> set (map b_id (books tx1)) then Inl ConstraintFailed
         else Inr (tx1\<lparr>books_authors := books_authors tx1 @
                 [\<lparr>ba_id = next_id (map ba_id (books_authors tx1)),
                   ba_book_id = bk_ID book, ba_author_id = authorID\<rparr>]\<rparr>))"

fun insertAuthors :: "db \<Rightarrow> string list \<Rightarrow> Book \<Rightarrow> error + db" where
  "insertAuthors tx [] book = Inr tx"
| "insertAuthors tx (author # rest) book =
     (case insertAuthor tx author book of
        Inl e \<Rightarrow> Inl e
      | Inr tx1 \<Rightarrow> insertAuthors tx1 rest book)"

definition insertTag :: "db \<Rightarrow> string \<Rightarrow> BookFile \<Rightarrow> error + db" where
  "insertTag tx tag bf =
     (let (tx1, tagID) =
        (case filter (\<lambda>t. t_name t = tag) (tags tx) of
           t # _ \<Rightarrow> (tx, t_id t)
         | [] \<Rightarrow>
             (let i = next_id (map t_id (tags tx))
              in (tx\<lparr>tags := tags tx @ [\<lparr>t_id = i, t_name = tag\<rparr>]\<rparr>, i)))
      in if list_ex (\<lambda>l. ft_file_id l = bf_ID bf \<and> ft_tag_id l = tagID) (files_tags tx1)
         then Inr tx1
         else if bf_ID bf \<notin> set (map f_id (files tx1)) then Inl ConstraintFailed
         else Inr (tx1\<lparr>files_tags := files_tags tx1 @
                 [\<lparr>ft_id = next_id (map ft_id (files_tags tx1)),
                   ft_file_id = bf_ID bf, ft_tag_id = tagID\<rparr>]\<rparr>))"

fun insertTags :: "db \<Rightarrow> string list \<Rightarrow> BookFile \<Rightarrow> error + db" where
  "insertTags tx [] bf = Inr tx"
| "insertTags tx (tag # rest) bf =
     (case insertTag tx tag bf of
        Inl e \<Rightarrow> Inl e
      | Inr tx1 \<Rightarrow> insertTags tx1 rest bf)"

text \<open>
  The \<^verbatim>\<open>insert into files\<close> statement: the file name and the hash are unique
  columns and the book must exist. It yields the new state and the id of the new row.
\<close>

definition insert_file :: "db \<Rightarrow> int \<Rightarrow> BookFile \<Rightarrow> error + db \<times> int" where
  "insert_file tx bookID bf =
     (if bf_CurrentFilename bf \<in> set (map f_filename (files tx))
         \<or> bf_Hash bf \<in> set (map f_hash (files tx))
         \<or> bookID \<notin> set (map b_id (books tx))
      then Inl ConstraintFailed
      else (let i = next_id (map f_id (files tx))
            in Inr (tx\<lparr>files := files tx @
                     [\<lparr>f_id = i, f_book_id = bookID, f_extension = bf_Extension bf,
                       f_original_filename = bf_OriginalFilename bf,
                       f_filename = bf_CurrentFilename bf, f_file_size = bf_FileSize bf,
                       f_file_mtime = bf_FileMtime bf, f_hash = bf_Hash bf,
                       f_source = bf_Source bf\<rparr>]\<rparr>, i)))"

subsection \<open>The search index\<close>

text \<open>
  The document \<^verbatim>\<open>indexBookInSearch\<close> inserts when \<^verbatim>\<open>createNew\<close> is set. The
  row carries its own docid, so it takes its place in docid order; a docid already in
  the table is rejected.
\<close>

definition new_document :: "Book \<Rightarrow> fts_row" where
  "new_document book =
     \<lparr>fts_docid = bk_ID book,
      fts_author = Join (bk_Authors book) '' & '',
      fts_series = bk_Series book,
      fts_title = bk_Title book,
      fts_extension = Join (map bf_Extension (bk_Files book)) '' '',
      fts_tags = Join (concat (map bf_Tags (bk_Files book))) '' '',
      fts_filename = None,
      fts_source = Join (map bf_Source (bk_Files book)) '' ''\<rparr>"

definition insert_fts :: "db \<Rightarrow> fts_row \<Rightarrow> error + db" where
  "insert_fts tx d =
     (if fts_docid d \<in> set (map fts_docid (books_fts tx)) then Inl ConstraintFailed
      else Inr (tx\<lparr>books_fts := insort_key fts_docid d (books_fts tx)\<rparr>))"

text \<open>The other half: read the book's row and append the file's values to it.\<close>

definition append_fts :: "db \<Rightarrow> Book \<Rightarrow> BookFile \<Rightarrow> error + db" where
  "append_fts tx book bf =
     (case filter (\<lambda>d. fts_docid d = bk_ID book) (books_fts tx) of
        [] \<Rightarrow> Inl (NotInFTS (bk_ID book))
      | d # _ \<Rightarrow>
          Inr (tx\<lparr>books_fts := map
                 (\<lambda>r. if fts_docid r = fts_docid d
                      then r\<lparr>fts_tags := fts_tags d @ '' '' @ Join (bf_Tags bf) '' '',
                             fts_extension := fts_extension d @ '' '' @ bf_Extension bf,
                             fts_source := fts_source d @ '' '' @ bf_Source bf\<rparr>
                      else r)
                 (books_fts tx)\<rparr>))"

text \<open>
  \<^verbatim>\<open>indexBookInSearch\<close> of \<^verbatim>\<open>library.go\<close>. Reading \<^verbatim>\<open>book.Files[0]\<close> of a
  book without files panics.
\<close>

definition indexBookInSearch :: "db \<Rightarrow> Book \<Rightarrow> bool \<Rightarrow> error + db" where
  "indexBookInSearch tx book createNew =
     (if \<not> createNew \<and> length (bk_Files book) \<noteq> 1 then Inl IndexNotOneFile
      else case bk_Files book of
             [] \<Rightarrow> Inl PanicIndexOutOfRange
           | bf # _ \<Rightarrow>
               if createNew then insert_fts tx (new_document book)
               else append_fts tx book bf)"

text \<open>
  \<^verbatim>\<open>indexBookInSearch\<close> of the library that has \<^verbatim>\<open>DeleteFile\<close>: the same
  without the check on the number of files.
\<close>

definition indexBookInSearch' :: "db \<Rightarrow> Book \<Rightarrow> bool \<Rightarrow> error + db" where
  "indexBookInSearch' tx book createNew =
     (case bk_Files book of
        [] \<Rightarrow> Inl PanicIndexOutOfRange
      | bf # _ \<Rightarrow>
          if createNew then insert_fts tx (new_document book)
          else append_fts tx book bf)"

section \<open>ImportBook\<close>

text \<open>
  The file system enters through \<^verbatim>\<open>moveOrCopyFile\<close> only: \<open>fsys bf move\<close> tells
  whether creating the directories and moving or copying the file succeeded. Every
  operation returns the committed state of the library after the call, and the error
  (\<open>None\<close> for \<^verbatim>\<open>nil\<close>). A rollback, and a panic that leaves the transaction
  open, both give back the state the call started from.
\<close>

definition moveOrCopyFile :: "(BookFile \<Rightarrow> bool \<Rightarrow> bool) \<Rightarrow> Book \<Rightarrow> bool \<Rightarrow> error option" where
  "moveOrCopyFile fsys book move =
     (if length (bk_Files book) \<noteq> 1 then Some MoveNotOneFile
      else if fsys (hd (bk_Files book)) move then None
      else Some FileSystemError)"

definition ImportBook ::
  "((int \<times> string list) list \<Rightarrow> (int \<times> string list) list) \<Rightarrow> (BookFile \<Rightarrow> bool \<Rightarrow> bool)
     \<Rightarrow> db \<Rightarrow> Book \<Rightarrow> bool \<Rightarrow> db \<times> error option" where
  "ImportBook ord fsys lib book move =
     (if length (bk_Files book) \<noteq> 1 then (lib, Some ImportNotOneFile)
      else
        let bf = hd (bk_Files book) in
        case filter (\<lambda>f. f_hash f = bf_Hash bf) (files lib) of
          f # _ \<Rightarrow> (lib, Some (DuplicateBook (f_id f)))
        | [] \<Rightarrow>
            let (existingBookID, found) =
                  getBookIDByTitleAndAuthors ord lib (bk_Title book) (bk_Authors book) in
            (case (if \<not> found
                  then (let i = next_id (map b_id (books lib));
                            book1 = book\<lparr>bk_ID := i\<rparr>
                        in case insertAuthors
                                  (lib\<lparr>books := books lib @
                                     [\<lparr>b_id = i, b_series = bk_Series book,
                                       b_title = bk_Title book\<rparr>]\<rparr>)
                                  (bk_Authors book) book1 of
                             Inl e \<Rightarrow> Inl e
                           | Inr tx1 \<Rightarrow> Inr (tx1, book1))
                  else Inr (lib, book\<lparr>bk_ID := existingBookID\<rparr>)) of
              Inl e \<Rightarrow> (lib, Some e)
            | Inr (tx1, book1) \<Rightarrow>
                (case insert_file tx1 (bk_ID book1) bf of
                   Inl e \<Rightarrow> (lib, Some e)
                 | Inr (tx2, newID) \<Rightarrow>
                     (case insertTags tx2 (bf_Tags bf) (bf\<lparr>bf_ID := newID\<rparr>) of
                        Inl e \<Rightarrow> (lib, Some e)
                      | Inr tx3 \<Rightarrow>
                          (case indexBookInSearch tx3 book1 (\<not> found) of
                             Inl e \<Rightarrow> (lib, Some e)
                           | Inr tx4 \<Rightarrow>
                               (case moveOrCopyFile fsys book1 move of
                                  Some e \<Rightarrow> (lib, Some e)
                                | None \<Rightarrow> (tx4, None)))))))"

section \<open>UpdateBook\<close>

definition UpdateBook ::
  "((int \<times> string list) list \<Rightarrow> (int \<times> string list) list) \<Rightarrow> db \<Rightarrow> Book \<Rightarrow> bool
     \<Rightarrow> db \<times> error option" where
  "UpdateBook ord lib book updateSeries =
     (case getBooksByID lib [bk_ID book] of
        [] \<Rightarrow> (lib, Some BookNotFound)
      | existingBook # _ \<Rightarrow>
          if bk_Title existingBook = bk_Title book
             \<and> authorsEqual (bk_Authors existingBook) (bk_Authors book)
             \<and> (\<not> updateSeries \<or> bk_Series existingBook = bk_Series book)
          then (lib, None)
          else
            let (existingBookID, found) =
                  getBookIDByTitleAndAuthors ord lib (bk_Title book) (bk_Authors book) in
            if found \<and> bk_ID book \<noteq> existingBookID
            then (lib, Some (BookExistsError existingBookID))
            else
              let tx1 =
                    (if bk_Title book \<noteq> bk_Title existingBook
                        \<or> (updateSeries \<and> bk_Series book \<noteq> bk_Series existingBook)
                     then (if updateSeries
                           then lib\<lparr>books := map
                                  (\<lambda>r. if b_id r = bk_ID book
                                       then r\<lparr>b_title := bk_Title book,
                                              b_series := bk_Series book\<rparr>
                                       else r) (books lib)\<rparr>
                           else lib\<lparr>books := map
                                  (\<lambda>r. if b_id r = bk_ID book
                                       then r\<lparr>b_title := bk_Title book\<rparr>
                                       else r) (books lib)\<rparr>)
                     else lib) in
              (case (if \<not> authorsEqual (bk_Authors existingBook) (bk_Authors book)
                    then insertAuthors
                           (tx1\<lparr>books_authors :=
                                  filter (\<lambda>l. ba_book_id l \<noteq> bk_ID book) (books_authors tx1)\<rparr>)
                           (bk_Authors book) book
                    else Inr tx1) of
                Inl e \<Rightarrow> (lib, Some e)
              | Inr tx2 \<Rightarrow>
                  (tx2\<lparr>books_fts := map
                          (\<lambda>d. if fts_docid d = bk_ID book
                               then d\<lparr>fts_title := bk_Title book,
                                      fts_author := Join (bk_Authors book) '' & ''\<rparr>
                               else d) (books_fts tx2)\<rparr>,
                   None)))"

section \<open>MergeBooks\<close>



section \<open>Search\<close>

text \<open>
  The full-text engine is a parameter: \<open>mtch terms\<close> is \<open>None\<close> when the engine
  rejects the query string, and otherwise the predicate that tells which documents
  match. \<^verbatim>\<open>LIMIT\<close> and \<^verbatim>\<open>OFFSET\<close> are SQLite's: a negative limit is no limit,
  a negative offset is zero. The arguments are Go \<^verbatim>\<open>int\<close>s, 64 bits wide and read
  as signed, so \<^verbatim>\<open>limit+moreResultsLimit\<close> wraps.
\<close>

definition sql_limit_offset :: "int \<Rightarrow> int \<Rightarrow> 'a list \<Rightarrow> 'a list" where
  "sql_limit_offset n m rows =
     (let rest = drop (nat m) rows in if n < 0 then rest else take (nat n) rest)"

definition SearchPaged ::
  "(string \<Rightarrow> (fts_row \<Rightarrow> bool) option) \<Rightarrow> db \<Rightarrow> string \<Rightarrow> 64 word \<Rightarrow> 64 word \<Rightarrow> 64 word
     \<Rightarrow> error + Book list \<times> 64 word" where
  "SearchPaged mtch lib terms offset limit moreResultsLimit =
     (case mtch terms of
        None \<Rightarrow> Inl QueryFailed
      | Some matches \<Rightarrow>
          let found = map fts_docid (filter matches (books_fts lib));
              ids = (if limit = 0 then found
                     else sql_limit_offset (sint (limit + moreResultsLimit)) (sint offset) found)
          in if 0 < sint limit \<and> sint limit < int (length ids)
             then Inr (GetBooksByID lib (take (nat (sint limit)) ids),
                       word_of_nat (length ids) - limit)
             else Inr (GetBooksByID lib ids, 0))"

definition Search ::
  "(string \<Rightarrow> (fts_row \<Rightarrow> bool) option) \<Rightarrow> db \<Rightarrow> string \<Rightarrow> error + Book list" where
  "Search mtch lib terms =
     (case SearchPaged mtch lib terms 0 0 0 of
        Inl e \<Rightarrow> Inl e
      | Inr (bks, moreResults) \<Rightarrow> Inr bks)"

section \<open>DeleteFile\<close>

text \<open>
  \<^verbatim>\<open>deleteFile\<close> works on two states. Its statements run in the transaction
  \<open>tx\<close>. \<^verbatim>\<open>lib.IsLastFile\<close> and \<^verbatim>\<open>lib.GetBooksByID\<close> do not: each begins a
  transaction of its own on the pool, that is on another connection, and an SQLite
  connection does not see what another has written and not yet committed. They read
  \<open>lib\<close>, the state as last committed.
\<close>

definition GetBookIDByFilename :: "db \<Rightarrow> string \<Rightarrow> error + int" where
  "GetBookIDByFilename lib fn =
     (case filter (\<lambda>f. f_filename f = fn) (files lib) of
        f # _ \<Rightarrow> Inr (f_book_id f)
      | [] \<Rightarrow> Inl BookNotFound)"

definition IsLastFile :: "db \<Rightarrow> BookFile \<Rightarrow> error + bool" where
  "IsLastFile lib bf =
     (case GetBookIDByFilename lib (bf_CurrentFilename bf) of
        Inl e \<Rightarrow> Inl e
      | Inr bookID \<Rightarrow>
          (let bks = GetBooksByID lib [bookID]
           in if length bks \<noteq> 1 then Inl PanicInconsistent
              else Inr (length (bk_Files (hd bks)) = 1)))"

definition cleanupTags :: "db \<Rightarrow> int \<Rightarrow> db" where
  "cleanupTags tx fid =
     (let tgs = map ft_tag_id (filter (\<lambda>l. ft_file_id l = fid) (files_tags tx));
          toDel = filter (\<lambda>t. length (filter (\<lambda>l. ft_tag_id l = t) (files_tags tx)) = 1) tgs
      in if toDel \<noteq> [] then delete_tags toDel tx else tx)"

definition cleanupAuthors :: "db \<Rightarrow> Book \<Rightarrow> db" where
  "cleanupAuthors tx b =
     (let aus = map ba_author_id (filter (\<lambda>l. ba_book_id l = bk_ID b) (books_authors tx));
          toDel = filter (\<lambda>a. length (filter (\<lambda>l. ba_author_id l = a) (books_authors tx)) = 1) aus
      in delete_authors toDel tx)"

definition deleteBookFromSearch :: "db \<Rightarrow> Book \<Rightarrow> db" where
  "deleteBookFromSearch tx b = delete_fts [bk_ID b] tx"

definition deleteBook :: "db \<Rightarrow> Book \<Rightarrow> db" where
  "deleteBook tx b = deleteBookFromSearch (delete_books [bk_ID b] (cleanupAuthors tx b)) b"

text \<open>
  \<^verbatim>\<open>deleteFile\<close> returns the state of the transaction where it stopped, and the
  error. Removing the file from the disk can only log, and is left out.
\<close>

definition deleteFile :: "db \<Rightarrow> db \<Rightarrow> BookFile \<Rightarrow> db \<times> error option" where
  "deleteFile lib tx bf =
     (case IsLastFile lib bf of
        Inl e \<Rightarrow> (tx, Some e)
      | Inr isLast \<Rightarrow>
          (case filter (\<lambda>f. f_id f = bf_ID bf) (files tx) of
             [] \<Rightarrow> (tx, Some ErrNoRows)
           | row # _ \<Rightarrow>
               let bID = f_book_id row;
                   tx1 = cleanupTags tx (bf_ID bf);
                   tx2 = delete_files (\<lambda>f. f_id f = bf_ID bf) tx1;
                   bks = GetBooksByID lib [bID]
               in if length bks \<noteq> 1 then (tx2, Some WrongNoOfBooks)
                  else
                    let b = hd bks;
                        tx3 = (if isLast then deleteBook tx2 b else tx2);
                        tx4 = deleteBookFromSearch tx3 b
                    in (case indexBookInSearch' tx4 b True of
                          Inl e \<Rightarrow> (tx4, Some e)
                        | Inr tx5 \<Rightarrow> (tx5, None))))"

text \<open>
  The deferred function of \<^verbatim>\<open>DeleteFile\<close> commits when the named result
  \<^verbatim>\<open>err\<close> is nil and rolls back otherwise. During a panic \<^verbatim>\<open>err\<close> is still nil,
  so what the transaction had done by then is committed before the panic goes on.
\<close>

definition DeleteFile :: "db \<Rightarrow> BookFile \<Rightarrow> db \<times> error option" where
  "DeleteFile lib bf =
     (case deleteFile lib lib bf of
        (tx, None) \<Rightarrow> (tx, None)
      | (tx, Some e) \<Rightarrow> if is_panic e then (tx, Some e) else (lib, Some e))"

section \<open>Two example libraries\<close>

text \<open>The library right after \<^verbatim>\<open>CreateLibrary\<close>.\<close>

definition lib_empty :: db where
  "lib_empty =
     \<lparr>books = [], files = [], authors = [], books_authors = [], tags = [],
      files_tags = [], books_fts = []\<rparr>"

text \<open>
  \<open>lib_ex\<close>: the book 1 (Shining, by King) has the files 1 and 3, the book 2 (Talisman,
  by King and Straub) has the file 2 alone. The tag horror is on the files 1 and 2, the
  tag fantasy on the file 2 only. It is the library three imports leave (lemma
  \<open>lib_ex_imported\<close>).
\<close>

definition lib_ex :: db where
  "lib_ex =
     \<lparr>books = [\<lparr>b_id = 1, b_series = '''', b_title = ''Shining''\<rparr>,
               \<lparr>b_id = 2, b_series = '''', b_title = ''Talisman''\<rparr>],
      files = [\<lparr>f_id = 1, f_book_id = 1, f_extension = ''epub'',
                f_original_filename = ''/in/a.epub'', f_filename = ''King/Shining.epub'',
                f_file_size = 10, f_file_mtime = 5, f_hash = ''H1'', f_source = ''web''\<rparr>,
               \<lparr>f_id = 2, f_book_id = 2, f_extension = ''epub'',
                f_original_filename = ''/in/b.epub'', f_filename = ''King/Talisman.epub'',
                f_file_size = 20, f_file_mtime = 6, f_hash = ''H2'', f_source = ''cd''\<rparr>,
               \<lparr>f_id = 3, f_book_id = 1, f_extension = ''pdf'',
                f_original_filename = ''/in/c.pdf'', f_filename = ''King/Shining.pdf'',
                f_file_size = 30, f_file_mtime = 7, f_hash = ''H3'', f_source = ''scan''\<rparr>],
      authors = [\<lparr>a_id = 1, a_name = ''King''\<rparr>, \<lparr>a_id = 2, a_name = ''Straub''\<rparr>],
      books_authors = [\<lparr>ba_id = 1, ba_book_id = 1, ba_author_id = 1\<rparr>,
                       \<lparr>ba_id = 2, ba_book_id = 2, ba_author_id = 1\<rparr>,
                       \<lparr>ba_id = 3, ba_book_id = 2, ba_author_id = 2\<rparr>],
      tags = [\<lparr>t_id = 1, t_name = ''horror''\<rparr>, \<lparr>t_id = 2, t_name = ''fantasy''\<rparr>],
      files_tags = [\<lparr>ft_id = 1, ft_file_id = 1, ft_tag_id = 1\<rparr>,
                    \<lparr>ft_id = 2, ft_file_id = 2, ft_tag_id = 1\<rparr>,
                    \<lparr>ft_id = 3, ft_file_id = 2, ft_tag_id = 2\<rparr>],
      books_fts = [\<lparr>fts_docid = 1, fts_author = ''King'', fts_series = '''',
                    fts_title = ''Shining'', fts_extension = ''epub pdf'',
                    fts_tags = ''horror '', fts_filename = None, fts_source = ''web scan''\<rparr>,
                   \<lparr>fts_docid = 2, fts_author = ''King & Straub'', fts_series = '''',
                    fts_title = ''Talisman'', fts_extension = ''epub'',
                    fts_tags = ''horror fantasy'', fts_filename = None, fts_source = ''cd''\<rparr>]\<rparr>"

text \<open>The files of \<open>lib_ex\<close> as \<^verbatim>\<open>GetFilesByID\<close> returns them.\<close>

definition file_one :: BookFile where
  "file_one =
     \<lparr>bf_ID = 1, bf_Extension = ''epub'', bf_OriginalFilename = ''/in/a.epub'',
      bf_CurrentFilename = ''King/Shining.epub'', bf_FileSize = 10, bf_FileMtime = 5,
      bf_Hash = ''H1'', bf_Source = ''web'', bf_Tags = [''horror'']\<rparr>"

definition file_two :: BookFile where
  "file_two =
     \<lparr>bf_ID = 2, bf_Extension = ''epub'', bf_OriginalFilename = ''/in/b.epub'',
      bf_CurrentFilename = ''King/Talisman.epub'', bf_FileSize = 20, bf_FileMtime = 6,
      bf_Hash = ''H2'', bf_Source = ''cd'', bf_Tags = [''horror'', ''fantasy'']\<rparr>"

definition file_three :: BookFile where
  "file_three =
     \<lparr>bf_ID = 3, bf_Extension = ''pdf'', bf_OriginalFilename = ''/in/c.pdf'',
      bf_CurrentFilename = ''King/Shining.pdf'', bf_FileSize = 30, bf_FileMtime = 7,
      bf_Hash = ''H3'', bf_Source = ''scan'', bf_Tags = []\<rparr>"

text \<open>A file that is not in any library yet, and whose name is free.\<close>

definition file_new :: BookFile where
  "file_new =
     \<lparr>bf_ID = 0, bf_Extension = ''mobi'', bf_OriginalFilename = ''/in/d.mobi'',
      bf_CurrentFilename = ''It.mobi'', bf_FileSize = 40, bf_FileMtime = 8,
      bf_Hash = ''H4'', bf_Source = ''web'', bf_Tags = []\<rparr>"

text \<open>
  \<open>lib_anon\<close>: the book 1 has an author, the book 2 (It) has none. It is the library
  two imports leave (lemma \<open>lib_anon_imported\<close>).
\<close>

definition lib_anon :: db where
  "lib_anon =
     \<lparr>books = [\<lparr>b_id = 1, b_series = '''', b_title = ''Shining''\<rparr>,
               \<lparr>b_id = 2, b_series = '''', b_title = ''It''\<rparr>],
      files = [\<lparr>f_id = 1, f_book_id = 1, f_extension = ''epub'',
                f_original_filename = ''/in/a.epub'', f_filename = ''King/Shining.epub'',
                f_file_size = 10, f_file_mtime = 5, f_hash = ''H1'', f_source = ''web''\<rparr>,
               \<lparr>f_id = 2, f_book_id = 2, f_extension = ''epub'',
                f_original_filename = ''/in/b.epub'', f_filename = ''It.epub'',
                f_file_size = 20, f_file_mtime = 6, f_hash = ''H2'', f_source = ''cd''\<rparr>],
      authors = [\<lparr>a_id = 1, a_name = ''King''\<rparr>],
      books_authors = [\<lparr>ba_id = 1, ba_book_id = 1, ba_author_id = 1\<rparr>],
      tags = [],
      files_tags = [],
      books_fts = [\<lparr>fts_docid = 1, fts_author = ''King'', fts_series = '''',
                    fts_title = ''Shining'', fts_extension = ''epub'',
                    fts_tags = '''', fts_filename = None, fts_source = ''web''\<rparr>,
                   \<lparr>fts_docid = 2, fts_author = '''', fts_series = '''',
                    fts_title = ''It'', fts_extension = ''epub'',
                    fts_tags = '''', fts_filename = None, fts_source = ''cd''\<rparr>]\<rparr>"

section \<open>GetUniqueName returns the first free name\<close>

lemma ext_scan_suffix: "\<exists>stem. rev cs @ seen = stem @ ext_scan cs seen"
proof (induction cs arbitrary: seen)
  case Nil
  show ?case by simp
next
  case (Cons c cs)
  from Cons.IH [of "c # seen"] show ?case by auto
qed

lemma Ext_suffix: "\<exists>stem. p = stem @ Ext p"
  using ext_scan_suffix [of "rev p" "[]"] by (simp add: Ext_def)

lemma TrimSuffix_append: "TrimSuffix (stem @ e) e = stem"
  by (simp add: TrimSuffix_def HasSuffix_def)

lemma sint_of_nat_small: "k < 2 ^ 63 \<Longrightarrow> sint (of_nat k :: 64 word) = int k"
  by (simp add: signed_of_nat signed_take_bit_int_eq_self)

lemma unique_loop_run:
  assumes "n < 2 ^ 63"
    and "\<forall>m. k \<le> m \<and> m < n \<longrightarrow> TrimSuffix f ext @ '' ('' @ Itoa (int m) @ '')'' @ ext \<in> fs"
    and "TrimSuffix f ext @ '' ('' @ Itoa (int n) @ '')'' @ ext \<notin> fs"
    and "k \<le> n" and "nm \<in> fs"
  shows "unique_loop fs f ext (of_nat k) nm =
           Some (TrimSuffix f ext @ '' ('' @ Itoa (int n) @ '')'' @ ext)"
  using assms
proof (induction "n - k" arbitrary: k nm)
  case 0
  then have [simp]: "k = n" by simp
  have s: "sint (of_nat n :: 64 word) = int n"
    using 0 by (simp add: sint_of_nat_small)
  show ?case
    using 0 by (subst unique_loop.simps, simp add: s, subst unique_loop.simps, simp)
next
  case (Suc d)
  then have kn: "k < n" by simp
  then have s: "sint (of_nat k :: 64 word) = int k"
    using Suc.prems by (simp add: sint_of_nat_small)
  have c: "TrimSuffix f ext @ '' ('' @ Itoa (int k) @ '')'' @ ext \<in> fs"
    using Suc.prems kn by simp
  have "unique_loop fs f ext (of_nat (Suc k)) (TrimSuffix f ext @ '' ('' @ Itoa (int k) @ '')'' @ ext) =
           Some (TrimSuffix f ext @ '' ('' @ Itoa (int n) @ '')'' @ ext)"
    using Suc.hyps Suc.prems kn c by (intro Suc.hyps(1)) auto
  then show ?case
    using Suc.prems by (subst unique_loop.simps) (simp add: s add.commute)
qed

lemma unique_loop_sound:
  assumes "unique_loop fs f ext i nm = Some r"
  shows "r \<notin> fs"
  by (rule unique_loop.raw_induct [where P = "\<lambda>fs f ext i nm r. r \<notin> fs", OF _ assms])
     (auto split: if_splits)

text \<open>
  Claim C7. Let \<open>fs\<close> be the set of paths that exist when \<open>GetUniqueName\<close> is called
  on \<open>f\<close>, and let \<open>stem\<close> be \<open>f\<close> without its extension \<open>Ext f\<close>. If \<open>f\<close> does not
  exist the result is \<open>f\<close>. If it exists, and \<open>n\<close> is the first of 1, 2, 3, ... for
  which \<open>stem\<close>, then \<open> (n)\<close>, then the extension is not an existing path, that path
  is the result: the suffixes tried grow by one with every collision. Whatever the
  function returns does not exist. The counter is a 64-bit \<^verbatim>\<open>int\<close>, so \<open>n\<close> is below
  \<open>2 ^ 63\<close>.
\<close>

theorem GetUniqueName_first_free:
  assumes "f = stem @ Ext f"
  shows "(f \<notin> fs \<longrightarrow> GetUniqueName fs f = Some f)
       \<and> (f \<in> fs \<and> 0 < n \<and> n < 2 ^ 63
            \<and> stem @ '' ('' @ Itoa (int n) @ '')'' @ Ext f \<notin> fs
            \<and> (\<forall>m. 0 < m \<and> m < n \<longrightarrow> stem @ '' ('' @ Itoa (int m) @ '')'' @ Ext f \<in> fs)
          \<longrightarrow> GetUniqueName fs f = Some (stem @ '' ('' @ Itoa (int n) @ '')'' @ Ext f))
       \<and> (\<forall>r. GetUniqueName fs f = Some r \<longrightarrow> r \<notin> fs)"
proof (intro conjI impI allI)
  assume "f \<notin> fs"
  then show "GetUniqueName fs f = Some f"
    by (simp add: GetUniqueName_def unique_loop.simps)
next
  have t: "TrimSuffix f (Ext f) = stem"
    using TrimSuffix_append [of stem "Ext f"] assms by simp
  assume a: "f \<in> fs \<and> 0 < n \<and> n < 2 ^ 63
            \<and> stem @ '' ('' @ Itoa (int n) @ '')'' @ Ext f \<notin> fs
            \<and> (\<forall>m. 0 < m \<and> m < n \<longrightarrow> stem @ '' ('' @ Itoa (int m) @ '')'' @ Ext f \<in> fs)"
  have "unique_loop fs f (Ext f) (of_nat 1) f =
          Some (TrimSuffix f (Ext f) @ '' ('' @ Itoa (int n) @ '')'' @ Ext f)"
    using a by (intro unique_loop_run) (auto simp: t)
  then show "GetUniqueName fs f = Some (stem @ '' ('' @ Itoa (int n) @ '')'' @ Ext f)"
    by (simp add: GetUniqueName_def t)
next
  fix r
  assume "GetUniqueName fs f = Some r"
  then show "r \<notin> fs"
    by (auto simp: GetUniqueName_def dest: unique_loop_sound)
qed

theorem GetUniqueName_first_free_witness:
  "GetUniqueName {''a.txt'', ''a (1).txt''} ''a.txt'' = Some ''a (2).txt''
   \<and> GetUniqueName {''a.txt'', ''a (1).txt''} ''b.txt'' = Some ''b.txt''"
proof -
  let ?fs = "{''a.txt'', ''a (1).txt''}"
  have e: "Ext ''a.txt'' = ''.txt''" "Ext ''b.txt'' = ''.txt''"
    by (simp_all add: Ext_def)
  have i: "Itoa 1 = ''1''" "Itoa 2 = ''2''"
    by (simp_all add: Itoa_def decimal.simps digit_char_def)
  have sa: "''a.txt'' = ''a'' @ Ext ''a.txt''" and sb: "''b.txt'' = ''b'' @ Ext ''b.txt''"
    by (simp_all add: e)
  have m: "\<forall>m. 0 < m \<and> m < (2::nat) \<longrightarrow>
             ''a'' @ '' ('' @ Itoa (int m) @ '')'' @ Ext ''a.txt'' \<in> ?fs"
  proof (intro allI impI)
    fix m :: nat
    assume "0 < m \<and> m < 2"
    then have "m = 1" by simp
    then show "''a'' @ '' ('' @ Itoa (int m) @ '')'' @ Ext ''a.txt'' \<in> ?fs"
      by (simp add: e i)
  qed
  have "GetUniqueName ?fs ''a.txt'' = Some (''a'' @ '' ('' @ Itoa (int 2) @ '')'' @ Ext ''a.txt'')"
    using GetUniqueName_first_free [OF sa, of ?fs 2] m by (simp add: e i)
  moreover have "GetUniqueName ?fs ''b.txt'' = Some ''b.txt''"
    using GetUniqueName_first_free [OF sb, of ?fs 1] by simp
  ultimately show ?thesis
    by (simp add: e i)
qed

section \<open>The example libraries are libraries the code builds\<close>

lemma lib_ex_imported:
  "ImportBook (\<lambda>m. m) (\<lambda>bf move. True)
     (fst (ImportBook (\<lambda>m. m) (\<lambda>bf move. True)
        (fst (ImportBook (\<lambda>m. m) (\<lambda>bf move. True) lib_empty
           \<lparr>bk_ID = 0, bk_Series = '''', bk_Title = ''Shining'', bk_Authors = [''King''],
            bk_Files = [file_one]\<rparr> False))
        \<lparr>bk_ID = 0, bk_Series = '''', bk_Title = ''Talisman'',
         bk_Authors = [''King'', ''Straub''], bk_Files = [file_two]\<rparr> False))
     \<lparr>bk_ID = 0, bk_Series = '''', bk_Title = ''Shining'', bk_Authors = [''King''],
      bk_Files = [file_three]\<rparr> False
   = (lib_ex, None)"
  by code_simp

lemma lib_anon_imported:
  "ImportBook (\<lambda>m. m) (\<lambda>bf move. True)
     (fst (ImportBook (\<lambda>m. m) (\<lambda>bf move. True) lib_empty
        \<lparr>bk_ID = 0, bk_Series = '''', bk_Title = ''Shining'', bk_Authors = [''King''],
         bk_Files = [file_one\<lparr>bf_Tags := []\<rparr>]\<rparr> False))
     \<lparr>bk_ID = 0, bk_Series = '''', bk_Title = ''It'', bk_Authors = [],
      bk_Files = [file_two\<lparr>bf_CurrentFilename := ''It.epub'', bf_Tags := []\<rparr>]\<rparr> False
   = (lib_anon, None)"
  by code_simp

section \<open>Facts about the reads\<close>

text \<open>A key that is unique in a table selects exactly the row that carries it.\<close>

lemma filter_key_singleton:
  "distinct (map g xs) \<Longrightarrow> x \<in> set xs \<Longrightarrow> filter (\<lambda>y. g y = g x) xs = [x]"
proof (induction xs)
  case Nil
  then show ?case by simp
next
  case (Cons y ys)
  show ?case
  proof (cases "y = x")
    case True
    have "g x \<notin> g ` set ys"
      using Cons.prems(1) True by simp
    then have "\<forall>z\<in>set ys. g z \<noteq> g x"
      by (metis imageI)
    then have "filter (\<lambda>z. g z = g x) ys = []"
      by (simp add: filter_empty_conv)
    then show ?thesis using True by simp
  next
    case False
    then have "x \<in> set ys" using Cons.prems by simp
    moreover have "g y \<noteq> g x"
      using Cons.prems(1) \<open>x \<in> set ys\<close> by auto
    ultimately show ?thesis using Cons by simp
  qed
qed

lemma filter_only:
  assumes "distinct xs" and "x \<in> set xs" and "P x" and "\<forall>y\<in>set xs. P y \<longrightarrow> y = x"
  shows "filter P xs = [x]"
proof -
  have "filter P xs = filter (\<lambda>y. id y = id x) xs"
    using assms(3,4) by (intro filter_cong) auto
  also have "\<dots> = [x]"
    using assms(1,2) by (intro filter_key_singleton) simp_all
  finally show ?thesis .
qed

lemma two_in_filter:
  assumes "x \<in> set xs" "y \<in> set xs" "x \<noteq> y" "P x" "P y"
  shows "2 \<le> length (filter P xs)"
proof -
  have "{x, y} \<subseteq> set (filter P xs)" using assms by simp
  then have "card {x, y} \<le> card (set (filter P xs))"
    by (intro card_mono) simp_all
  also have "\<dots> \<le> length (filter P xs)" by (rule card_length)
  finally show ?thesis using assms(3) by simp
qed

text \<open>A Go map filled by appending holds, under each key, the values stored under it.\<close>

lemma map_of_append_at:
  "map_of (append_at k v m) k' = (if k' = k then Some (lookup m k @ [v]) else map_of m k')"
  by (induction m) (auto simp: lookup_def)

lemma lookup_append_at:
  "lookup (append_at k v m) k' = (if k' = k then lookup m k @ [v] else lookup m k')"
  by (simp add: lookup_def map_of_append_at)

lemma lookup_foldl_append_at:
  "lookup (foldl (\<lambda>m (k, v). append_at k v m) m rows) k =
     lookup m k @ map snd (filter (\<lambda>r. fst r = k) rows)"
  by (induction rows arbitrary: m) (auto simp: lookup_append_at)

lemma lookup_collect: "lookup (collect rows) k = map snd (filter (\<lambda>r. fst r = k) rows)"
  unfolding collect_def by (subst lookup_foldl_append_at) (simp add: lookup_def)

lemma lookup_map_entries:
  assumes "g [] = []"
  shows "lookup (map (\<lambda>(k, v). (k, g v)) m) k = g (lookup m k)"
proof -
  have "map_of (map (\<lambda>(k, v). (k, g v)) m) k = map_option g (map_of m k)"
    by (induction m) auto
  then show ?thesis
    using assms by (simp add: lookup_def split: option.split)
qed

lemma append_at_nonempty:
  "\<forall>e\<in>set m. snd e \<noteq> [] \<Longrightarrow> \<forall>e\<in>set (append_at k v m). snd e \<noteq> []"
  by (induction m) (fastforce split: if_splits)+

lemma foldl_append_at_nonempty:
  "\<forall>e\<in>set m. snd e \<noteq> [] \<Longrightarrow>
     \<forall>e\<in>set (foldl (\<lambda>m (k, v). append_at k v m) m rows). snd e \<noteq> []"
proof (induction rows arbitrary: m)
  case Nil
  then show ?case by simp
next
  case (Cons r rows)
  obtain k v where r: "r = (k, v)" by (cases r)
  show ?case
    using Cons.IH [OF append_at_nonempty [OF Cons.prems, of k v]] by (simp add: r)
qed

lemma collect_nonempty: "\<forall>e\<in>set (collect rows). snd e \<noteq> []"
  unfolding collect_def by (rule foldl_append_at_nonempty) simp

lemma getAuthorsByBookIds_nonempty: "\<forall>e\<in>set (getAuthorsByBookIds tx ids). snd e \<noteq> []"
  by (simp add: getAuthorsByBookIds_def collect_nonempty)

text \<open>
  The files \<^verbatim>\<open>getBooksByID\<close> attaches to a book are the files whose ids are the ids
  of the rows of \<^verbatim>\<open>files\<close> that point to the book.
\<close>

lemma getFilesByID_Nil: "getFilesByID tx [] = []"
  by (simp add: getFilesByID_def)

lemma files_of_book:
  "lookup (getFilesByBookIds tx ids) b =
     getFilesByID tx (map f_id (filter (\<lambda>f. f_book_id f = b \<and> f_book_id f \<in> set ids) (files tx)))"
proof (cases "ids = []")
  case True
  then show ?thesis by (simp add: getFilesByBookIds_def lookup_def getFilesByID_Nil)
next
  case False
  then show ?thesis
    by (simp add: getFilesByBookIds_def lookup_map_entries [where g = "getFilesByID tx"]
        getFilesByID_Nil lookup_collect filter_map o_def conj_commute)
qed

lemma getBooksByID_single:
  assumes "distinct (map b_id (books tx))" and "r \<in> set (books tx)"
  shows "getBooksByID tx [b_id r] =
           [\<lparr>bk_ID = b_id r, bk_Series = b_series r, bk_Title = b_title r,
             bk_Authors = lookup (getAuthorsByBookIds tx [b_id r]) (b_id r),
             bk_Files = getFilesByID tx
               (map f_id (filter (\<lambda>f. f_book_id f = b_id r) (files tx)))\<rparr>]"
  using filter_key_singleton [OF assms, of ] 
  by (simp add: getBooksByID_def files_of_book)

lemma getBooksByID_member:
  assumes "b \<in> set (getBooksByID tx ids)"
  shows "bk_ID b \<in> set ids \<and> bk_ID b \<in> b_id ` set (books tx)
       \<and> bk_Files b = lookup (getFilesByBookIds tx ids) (bk_ID b)"
  using assms by (auto simp: getBooksByID_def split: if_splits)

lemma length_GetBooksByID:
  assumes "distinct (map b_id (books lib))"
  shows "length (GetBooksByID lib ids) \<le> length ids"
proof -
  let ?sel = "filter (\<lambda>r. b_id r \<in> set ids) (books lib)"
  have "distinct (map b_id ?sel)"
    using assms by (simp add: distinct_map_filter)
  then have "length ?sel = card (set (map b_id ?sel))"
    by (metis distinct_card length_map)
  also have "\<dots> \<le> card (set ids)"
    by (rule card_mono) auto
  also have "\<dots> \<le> length ids"
    by (rule card_length)
  finally show ?thesis
    by (simp add: GetBooksByID_def getBooksByID_def)
qed

text \<open>None of the reads looks at the full-text table.\<close>

lemma getTagsByFileIds_fts [simp]:
  "getTagsByFileIds (tx\<lparr>books_fts := x\<rparr>) ids = getTagsByFileIds tx ids"
  by (simp add: getTagsByFileIds_def)

lemma getFilesByID_fts [simp]: "getFilesByID (tx\<lparr>books_fts := x\<rparr>) ids = getFilesByID tx ids"
  by (simp add: getFilesByID_def)

lemma getFilesByBookIds_fts [simp]:
  "getFilesByBookIds (tx\<lparr>books_fts := x\<rparr>) ids = getFilesByBookIds tx ids"
  by (simp add: getFilesByBookIds_def)

lemma getAuthorsByBookIds_fts [simp]:
  "getAuthorsByBookIds (tx\<lparr>books_fts := x\<rparr>) ids = getAuthorsByBookIds tx ids"
  by (simp add: getAuthorsByBookIds_def)

lemma getBooksByID_fts [simp]: "getBooksByID (tx\<lparr>books_fts := x\<rparr>) ids = getBooksByID tx ids"
  by (simp add: getBooksByID_def)

text \<open>\<^verbatim>\<open>authorsEqual\<close> is equality of the two name sequences, order included.\<close>

lemma authorsEqual_iff: "authorsEqual a b \<longleftrightarrow> a = b"
proof -
  have "authorsEqual a b \<longleftrightarrow> length a = length b \<and> (\<forall>i<length a. a ! i = b ! i)"
    by (auto simp: list_all_iff)
  then show ?thesis
    by (simp only: list_eq_iff_nth_eq)
qed

declare authorsEqual.simps [simp del]

lemma authorsEqual_Nil: "authorsEqual [] names \<longleftrightarrow> names = []"
  by (auto simp: authorsEqual_iff)

lemma no_authors_never_found:
  assumes "\<And>m. set (ord m) \<subseteq> set m"
  shows "getBookIDByTitleAndAuthors ord tx title [] = (0, False)"
proof -
  let ?m = "getAuthorsByBookIds tx (map b_id (filter (\<lambda>r. b_title r = title) (books tx)))"
  have "\<forall>e\<in>set (ord ?m). snd e \<noteq> []"
    using getAuthorsByBookIds_nonempty [of tx] assms [of ?m] by blast
  then have "find (\<lambda>(bookID, authorNames). authorsEqual [] authorNames) (ord ?m) = None"
    by (auto simp: find_None_iff authorsEqual_Nil)
  then show ?thesis
    by (simp add: getBookIDByTitleAndAuthors_def Let_def)
qed

text \<open>
  The entries of the author map are the books among \<open>ids\<close> that have an author, each
  with its author names in the order of its links. So \<^verbatim>\<open>getBookIDByTitleAndAuthors\<close>
  answers with a book of the given title whose stored author sequence is the given one,
  and it finds such a book whenever there is one and the sequence is not empty, in
  whatever order the map is ranged over.
\<close>

lemma map_fst_append_at:
  "map fst (append_at k v m) = (if k \<in> set (map fst m) then map fst m else map fst m @ [k])"
  by (induction m) force+

lemma keys_append_at: "fst ` set (append_at k v m) = insert k (fst ` set m)"
  using arg_cong [OF map_fst_append_at [of k v m], of set] by auto

lemma distinct_append_at: "distinct (map fst m) \<Longrightarrow> distinct (map fst (append_at k v m))"
  by (simp add: map_fst_append_at)

lemma foldl_append_at_keys:
  "distinct (map fst m) \<Longrightarrow>
     distinct (map fst (foldl (\<lambda>m (k, v). append_at k v m) m rows))
   \<and> fst ` set (foldl (\<lambda>m (k, v). append_at k v m) m rows) = fst ` set m \<union> fst ` set rows"
proof (induction rows arbitrary: m)
  case Nil
  then show ?case by simp
next
  case (Cons r rows)
  obtain k v where r: "r = (k, v)" by (cases r)
  show ?case
    using Cons.IH [OF distinct_append_at [OF Cons.prems, of k v]]
    by (simp add: r keys_append_at Un_commute insert_commute)
qed

lemma collect_keys:
  "distinct (map fst (collect rows))" "fst ` set (collect rows) = fst ` set rows"
  using foldl_append_at_keys [of "[]" rows] by (simp_all add: collect_def)

lemma collect_entry:
  "(k, vs) \<in> set (collect rows) \<longleftrightarrow> k \<in> fst ` set rows \<and> vs = lookup (collect rows) k"
proof
  assume a: "(k, vs) \<in> set (collect rows)"
  then have "map_of (collect rows) k = Some vs"
    using collect_keys(1) [of rows] by simp
  moreover have "k \<in> fst ` set (collect rows)"
    using a by force
  ultimately show "k \<in> fst ` set rows \<and> vs = lookup (collect rows) k"
    by (simp add: collect_keys(2) lookup_def)
next
  assume a: "k \<in> fst ` set rows \<and> vs = lookup (collect rows) k"
  then have "k \<in> fst ` set (collect rows)"
    by (simp add: collect_keys(2))
  then obtain ws where w: "(k, ws) \<in> set (collect rows)"
    by force
  then have "map_of (collect rows) k = Some ws"
    using collect_keys(1) [of rows] by simp
  then show "(k, vs) \<in> set (collect rows)"
    using a w by (simp add: lookup_def)
qed

lemma concat_map_if:
  "concat (map (\<lambda>x. if P x then g x else []) xs) = concat (map g (filter P xs))"
  by (induction xs) auto

lemma lookup_author_map:
  assumes "k \<in> set ids"
  shows "lookup (getAuthorsByBookIds tx ids) k =
     concat (map (\<lambda>l. map a_name (filter (\<lambda>a. a_id a = ba_author_id l) (authors tx)))
                 (filter (\<lambda>l. ba_book_id l = k) (sort_key ba_id (books_authors tx))))"
proof -
  have ne: "ids \<noteq> []" using assms by auto
  have f: "filter (\<lambda>r. fst r = k)
            (map (\<lambda>a. (ba_book_id l, a_name a)) (filter (\<lambda>a. a_id a = ba_author_id l) (authors tx)))
          = (if ba_book_id l = k
             then map (\<lambda>a. (ba_book_id l, a_name a)) (filter (\<lambda>a. a_id a = ba_author_id l) (authors tx))
             else [])" for l
    by (simp add: filter_map o_def)
  have g: "filter (\<lambda>x. ba_book_id x = k \<and> ba_book_id x \<in> set ids) xs =
           filter (\<lambda>x. ba_book_id x = k) xs" for xs
    using assms by (intro filter_cong) auto
  show ?thesis
    by (simp add: getAuthorsByBookIds_def ne lookup_collect filter_concat map_concat o_def f
        if_distrib [of "map snd"] concat_map_if conj_commute g cong: if_cong)
qed

lemma lookup_author_map_single:
  assumes "k \<in> set ids"
  shows "lookup (getAuthorsByBookIds tx ids) k = lookup (getAuthorsByBookIds tx [k]) k"
  using lookup_author_map [OF assms, of tx] lookup_author_map [of k "[k]" tx] by simp


lemma author_map_entry:
  "(k, vs) \<in> set (getAuthorsByBookIds tx ids) \<longleftrightarrow>
     k \<in> set ids \<and> vs = lookup (getAuthorsByBookIds tx [k]) k \<and> vs \<noteq> []"
proof (cases "ids = []")
  case True
  then show ?thesis by (simp add: getAuthorsByBookIds_def)
next
  case False
  define rows where "rows = concat (map
             (\<lambda>l. map (\<lambda>a. (ba_book_id l, a_name a))
                    (filter (\<lambda>a. a_id a = ba_author_id l) (authors tx)))
             (filter (\<lambda>l. ba_book_id l \<in> set ids) (sort_key ba_id (books_authors tx))))"
  have m: "getAuthorsByBookIds tx ids = collect rows"
    using False by (simp add: getAuthorsByBookIds_def rows_def)
  have keys: "k \<in> fst ` set rows \<longleftrightarrow> lookup (collect rows) k \<noteq> []"
    unfolding lookup_collect by (force simp: filter_empty_conv)
  have sub: "k \<in> fst ` set rows \<Longrightarrow> k \<in> set ids"
    unfolding rows_def by auto
  show ?thesis
  proof
    assume "(k, vs) \<in> set (getAuthorsByBookIds tx ids)"
    then have e: "k \<in> fst ` set rows" "vs = lookup (collect rows) k"
      unfolding m collect_entry by simp_all
    have i: "k \<in> set ids" using e(1) by (rule sub)
    have "vs \<noteq> []" using e keys by simp
    moreover have "vs = lookup (getAuthorsByBookIds tx [k]) k"
      using lookup_author_map_single [OF i, of tx] e(2) by (simp only: m)
    ultimately show "k \<in> set ids \<and> vs = lookup (getAuthorsByBookIds tx [k]) k \<and> vs \<noteq> []"
      using i by simp
  next
    assume "k \<in> set ids \<and> vs = lookup (getAuthorsByBookIds tx [k]) k \<and> vs \<noteq> []"
    then have i: "k \<in> set ids" and a: "vs = lookup (getAuthorsByBookIds tx [k]) k"
      and n: "vs \<noteq> []"
      by blast+
    have v: "vs = lookup (collect rows) k"
      using lookup_author_map_single [OF i, of tx] a by (simp only: m)
    have "lookup (collect rows) k \<noteq> []"
      using n unfolding v .
    then have "k \<in> fst ` set rows"
      unfolding keys .
    then show "(k, vs) \<in> set (getAuthorsByBookIds tx ids)"
      using v unfolding m collect_entry by simp
  qed
qed

lemma found_is_a_match:
  assumes "\<And>m. set (ord m) \<subseteq> set m"
    and "getBookIDByTitleAndAuthors ord tx title as = (k, True)"
  shows "k \<in> b_id ` {r \<in> set (books tx). b_title r = title}
       \<and> lookup (getAuthorsByBookIds tx [k]) k = as \<and> as \<noteq> []"
proof -
  let ?ids = "map b_id (filter (\<lambda>r. b_title r = title) (books tx))"
  let ?m = "getAuthorsByBookIds tx ?ids"
  obtain names where f: "find (\<lambda>(bookID, authorNames). authorsEqual as authorNames) (ord ?m)
      = Some (k, names)"
    using assms(2) by (auto simp: getBookIDByTitleAndAuthors_def Let_def split: option.splits)
  then have "(k, names) \<in> set (ord ?m)" and "names = as"
    by (auto simp: find_Some_iff authorsEqual_iff in_set_conv_nth)
  then have "(k, as) \<in> set ?m"
    using assms(1) by blast
  then show ?thesis
    unfolding author_map_entry by auto
qed

lemma match_is_found:
  assumes "\<And>m. set m \<subseteq> set (ord m)"
    and "r \<in> set (books tx)" and "b_title r = title"
    and "lookup (getAuthorsByBookIds tx [b_id r]) (b_id r) = as" and "as \<noteq> []"
  shows "\<exists>k. getBookIDByTitleAndAuthors ord tx title as = (k, True)"
proof -
  let ?ids = "map b_id (filter (\<lambda>r. b_title r = title) (books tx))"
  let ?m = "getAuthorsByBookIds tx ?ids"
  have "b_id r \<in> set ?ids"
    using assms(2,3) by auto
  then have "(b_id r, as) \<in> set ?m"
    unfolding author_map_entry using assms(4,5) by simp
  then have "(b_id r, as) \<in> set (ord ?m)"
    using assms(1) by blast
  then have "find (\<lambda>(bookID, authorNames). authorsEqual as authorNames) (ord ?m) \<noteq> None"
    by (auto simp: find_None_iff authorsEqual_iff)
  then show ?thesis
    by (auto simp: getBookIDByTitleAndAuthors_def Let_def split: option.splits)
qed

text \<open>
  What \<^verbatim>\<open>getBooksByID\<close> returns, row by row: one book for every row of
  \<^verbatim>\<open>books\<close> whose id is asked for, in the order of the table, with the names of its
  authors in the order of its links, and with every file that points to it, each with the
  names of its tags in the order of its links. File ids are unique (a primary key).
\<close>

lemma lookup_tag_map:
  assumes "k \<in> set ids"
  shows "lookup (getTagsByFileIds tx ids) k =
     concat (map (\<lambda>l. map t_name (filter (\<lambda>t. t_id t = ft_tag_id l) (tags tx)))
                 (filter (\<lambda>l. ft_file_id l = k) (sort_key ft_id (files_tags tx))))"
proof -
  have ne: "ids \<noteq> []" using assms by auto
  have f: "filter (\<lambda>r. fst r = k)
            (map (\<lambda>t. (ft_file_id l, t_name t)) (filter (\<lambda>t. t_id t = ft_tag_id l) (tags tx)))
          = (if ft_file_id l = k
             then map (\<lambda>t. (ft_file_id l, t_name t)) (filter (\<lambda>t. t_id t = ft_tag_id l) (tags tx))
             else [])" for l
    by (simp add: filter_map o_def)
  have g: "filter (\<lambda>x. ft_file_id x = k \<and> ft_file_id x \<in> set ids) xs =
           filter (\<lambda>x. ft_file_id x = k) xs" for xs
    using assms by (intro filter_cong) auto
  show ?thesis
    by (simp add: getTagsByFileIds_def ne lookup_collect filter_concat map_concat o_def f
        if_distrib [of "map snd"] concat_map_if conj_commute g cong: if_cong)
qed

lemma getFilesByID_rows:
  assumes "distinct (map f_id (files tx))"
  shows "getFilesByID tx (map f_id (filter (\<lambda>f. f_book_id f = k) (files tx))) =
     map (\<lambda>f. \<lparr>bf_ID = f_id f, bf_Extension = f_extension f,
                bf_OriginalFilename = f_original_filename f, bf_CurrentFilename = f_filename f,
                bf_FileSize = f_file_size f, bf_FileMtime = f_file_mtime f, bf_Hash = f_hash f,
                bf_Source = f_source f,
                bf_Tags = concat (map (\<lambda>l. map t_name (filter (\<lambda>t. t_id t = ft_tag_id l) (tags tx)))
                            (filter (\<lambda>l. ft_file_id l = f_id f) (sort_key ft_id (files_tags tx))))\<rparr>)
         (filter (\<lambda>f. f_book_id f = k) (files tx))"
proof -
  let ?own = "filter (\<lambda>f. f_book_id f = k) (files tx)"
  have inj: "inj_on f_id (set (files tx))"
    using assms by (simp add: distinct_map)
  have sel: "filter (\<lambda>f. f_id f \<in> set (map f_id ?own)) (files tx) = ?own"
  proof (rule filter_cong [OF refl])
    fix f assume f: "f \<in> set (files tx)"
    show "(f_id f \<in> set (map f_id ?own)) = (f_book_id f = k)"
    proof
      assume "f_id f \<in> set (map f_id ?own)"
      then obtain g where g: "g \<in> set (files tx)" "f_book_id g = k" "f_id g = f_id f"
        by auto
      then have "g = f" using inj f by (auto dest: inj_onD)
      then show "f_book_id f = k" using g by simp
    next
      assume "f_book_id f = k"
      then show "f_id f \<in> set (map f_id ?own)" using f by auto
    qed
  qed
  show ?thesis
  proof (cases "?own = []")
    case True
    then show ?thesis by (simp add: getFilesByID_def)
  next
    case False
    then have ne: "map f_id ?own \<noteq> []" by simp
    have "getFilesByID tx (map f_id ?own) = map (scan_file (getTagsByFileIds tx (map f_id ?own))) ?own"
      unfolding getFilesByID_def using ne sel by (simp only: if_False)
    also have "\<dots> = map (\<lambda>f. \<lparr>bf_ID = f_id f, bf_Extension = f_extension f,
                bf_OriginalFilename = f_original_filename f, bf_CurrentFilename = f_filename f,
                bf_FileSize = f_file_size f, bf_FileMtime = f_file_mtime f, bf_Hash = f_hash f,
                bf_Source = f_source f,
                bf_Tags = concat (map (\<lambda>l. map t_name (filter (\<lambda>t. t_id t = ft_tag_id l) (tags tx)))
                            (filter (\<lambda>l. ft_file_id l = f_id f) (sort_key ft_id (files_tags tx))))\<rparr>) ?own"
    proof (rule map_cong [OF refl])
      fix f assume "f \<in> set ?own"
      then have "f_id f \<in> set (map f_id ?own)" by (simp only: set_map) (rule imageI)
      from lookup_tag_map [OF this, of tx]
      show "scan_file (getTagsByFileIds tx (map f_id ?own)) f = \<lparr>bf_ID = f_id f, bf_Extension = f_extension f,
                bf_OriginalFilename = f_original_filename f, bf_CurrentFilename = f_filename f,
                bf_FileSize = f_file_size f, bf_FileMtime = f_file_mtime f, bf_Hash = f_hash f,
                bf_Source = f_source f,
                bf_Tags = concat (map (\<lambda>l. map t_name (filter (\<lambda>t. t_id t = ft_tag_id l) (tags tx)))
                            (filter (\<lambda>l. ft_file_id l = f_id f) (sort_key ft_id (files_tags tx))))\<rparr>"
        by (simp only: scan_file_def)
    qed
    finally show ?thesis .
  qed
qed

lemma getBooksByID_rows:
  assumes "distinct (map f_id (files tx))"
  shows "getBooksByID tx ids =
     map (\<lambda>r. \<lparr>bk_ID = b_id r, bk_Series = b_series r, bk_Title = b_title r,
                bk_Authors = concat (map (\<lambda>l. map a_name (filter (\<lambda>a. a_id a = ba_author_id l) (authors tx)))
                               (filter (\<lambda>l. ba_book_id l = b_id r) (sort_key ba_id (books_authors tx)))),
                bk_Files = map (\<lambda>f. \<lparr>bf_ID = f_id f, bf_Extension = f_extension f,
                    bf_OriginalFilename = f_original_filename f, bf_CurrentFilename = f_filename f,
                    bf_FileSize = f_file_size f, bf_FileMtime = f_file_mtime f, bf_Hash = f_hash f,
                    bf_Source = f_source f,
                    bf_Tags = concat (map (\<lambda>l. map t_name (filter (\<lambda>t. t_id t = ft_tag_id l) (tags tx)))
                                (filter (\<lambda>l. ft_file_id l = f_id f) (sort_key ft_id (files_tags tx))))\<rparr>)
                  (filter (\<lambda>f. f_book_id f = b_id r) (files tx))\<rparr>)
         (filter (\<lambda>r. b_id r \<in> set ids) (books tx))"
proof (cases "ids = []")
  case True
  then show ?thesis by (simp add: getBooksByID_def)
next
  case False
  have fl: "lookup (getFilesByBookIds tx ids) k =
            getFilesByID tx (map f_id (filter (\<lambda>f. f_book_id f = k) (files tx)))" if "k \<in> set ids" for k
  proof -
    have "filter (\<lambda>f. f_book_id f = k \<and> f_book_id f \<in> set ids) (files tx) =
          filter (\<lambda>f. f_book_id f = k) (files tx)"
      using that by (intro filter_cong) auto
    then show ?thesis by (simp only: files_of_book)
  qed
  have "getBooksByID tx ids =
     map (\<lambda>r. \<lparr>bk_ID = b_id r, bk_Series = b_series r, bk_Title = b_title r,
                       bk_Authors = lookup (getAuthorsByBookIds tx ids) (b_id r),
                       bk_Files = lookup (getFilesByBookIds tx ids) (b_id r)\<rparr>)
             (filter (\<lambda>r. b_id r \<in> set ids) (books tx))"
    using False by (simp only: getBooksByID_def if_False)
  also have "\<dots> = map (\<lambda>r. \<lparr>bk_ID = b_id r, bk_Series = b_series r, bk_Title = b_title r,
                bk_Authors = concat (map (\<lambda>l. map a_name (filter (\<lambda>a. a_id a = ba_author_id l) (authors tx)))
                               (filter (\<lambda>l. ba_book_id l = b_id r) (sort_key ba_id (books_authors tx)))),
                bk_Files = map (\<lambda>f. \<lparr>bf_ID = f_id f, bf_Extension = f_extension f,
                    bf_OriginalFilename = f_original_filename f, bf_CurrentFilename = f_filename f,
                    bf_FileSize = f_file_size f, bf_FileMtime = f_file_mtime f, bf_Hash = f_hash f,
                    bf_Source = f_source f,
                    bf_Tags = concat (map (\<lambda>l. map t_name (filter (\<lambda>t. t_id t = ft_tag_id l) (tags tx)))
                                (filter (\<lambda>l. ft_file_id l = f_id f) (sort_key ft_id (files_tags tx))))\<rparr>)
                  (filter (\<lambda>f. f_book_id f = b_id r) (files tx))\<rparr>)
         (filter (\<lambda>r. b_id r \<in> set ids) (books tx))"
  proof (rule map_cong [OF refl])
    fix r assume "r \<in> set (filter (\<lambda>r. b_id r \<in> set ids) (books tx))"
    then have k: "b_id r \<in> set ids" by simp
    show "\<lparr>bk_ID = b_id r, bk_Series = b_series r, bk_Title = b_title r,
                       bk_Authors = lookup (getAuthorsByBookIds tx ids) (b_id r),
                       bk_Files = lookup (getFilesByBookIds tx ids) (b_id r)\<rparr> =
          \<lparr>bk_ID = b_id r, bk_Series = b_series r, bk_Title = b_title r,
                bk_Authors = concat (map (\<lambda>l. map a_name (filter (\<lambda>a. a_id a = ba_author_id l) (authors tx)))
                               (filter (\<lambda>l. ba_book_id l = b_id r) (sort_key ba_id (books_authors tx)))),
                bk_Files = map (\<lambda>f. \<lparr>bf_ID = f_id f, bf_Extension = f_extension f,
                    bf_OriginalFilename = f_original_filename f, bf_CurrentFilename = f_filename f,
                    bf_FileSize = f_file_size f, bf_FileMtime = f_file_mtime f, bf_Hash = f_hash f,
                    bf_Source = f_source f,
                    bf_Tags = concat (map (\<lambda>l. map t_name (filter (\<lambda>t. t_id t = ft_tag_id l) (tags tx)))
                                (filter (\<lambda>l. ft_file_id l = f_id f) (sort_key ft_id (files_tags tx))))\<rparr>)
                  (filter (\<lambda>f. f_book_id f = b_id r) (files tx))\<rparr>"
      by (simp only: lookup_author_map [OF k] fl [OF k] getFilesByID_rows [OF assms])
  qed
  finally show ?thesis .
qed

lemma GetBooksByID_rows:
  assumes "distinct (map f_id (files lib))"
  shows "GetBooksByID lib ids =
     map (\<lambda>r. \<lparr>bk_ID = b_id r, bk_Series = b_series r, bk_Title = b_title r,
                bk_Authors = concat (map (\<lambda>l. map a_name (filter (\<lambda>a. a_id a = ba_author_id l) (authors lib)))
                               (filter (\<lambda>l. ba_book_id l = b_id r) (sort_key ba_id (books_authors lib)))),
                bk_Files = map (\<lambda>f. \<lparr>bf_ID = f_id f, bf_Extension = f_extension f,
                    bf_OriginalFilename = f_original_filename f, bf_CurrentFilename = f_filename f,
                    bf_FileSize = f_file_size f, bf_FileMtime = f_file_mtime f, bf_Hash = f_hash f,
                    bf_Source = f_source f,
                    bf_Tags = concat (map (\<lambda>l. map t_name (filter (\<lambda>t. t_id t = ft_tag_id l) (tags lib)))
                                (filter (\<lambda>l. ft_file_id l = f_id f) (sort_key ft_id (files_tags lib))))\<rparr>)
                  (filter (\<lambda>f. f_book_id f = b_id r) (files lib))\<rparr>)
         (filter (\<lambda>r. b_id r \<in> set ids) (books lib))"
proof (cases "ids = []")
  case True
  then show ?thesis by (simp add: GetBooksByID_def)
next
  case False
  then have "GetBooksByID lib ids = getBooksByID lib ids"
    by (simp add: GetBooksByID_def)
  then show ?thesis
    by (simp only: getBooksByID_rows [OF assms])
qed

lemma GetBooksByID_ids:
  "map bk_ID (GetBooksByID lib ids) = filter (\<lambda>i. i \<in> set ids) (map b_id (books lib))"
  by (simp add: GetBooksByID_def getBooksByID_def filter_map o_def)

lemma length_filter_members:
  assumes "distinct ys" and "distinct xs" and "set xs \<subseteq> set ys"
  shows "length (filter (\<lambda>i. i \<in> set xs) ys) = length xs"
proof -
  have "distinct (filter (\<lambda>i. i \<in> set xs) ys)"
    using assms(1) by simp
  then have "length (filter (\<lambda>i. i \<in> set xs) ys) = card (set (filter (\<lambda>i. i \<in> set xs) ys))"
    by (metis distinct_card)
  also have "set (filter (\<lambda>i. i \<in> set xs) ys) = set xs"
    using assms(3) by auto
  also have "card (set xs) = length xs"
    using assms(2) by (simp add: distinct_card)
  finally show ?thesis .
qed

section \<open>What the deleting statements leave alone\<close>

lemmas store_ops = cleanupTags_def cleanupAuthors_def delete_tags_def delete_authors_def
  delete_files_def delete_books_def delete_fts_def deleteBook_def deleteBookFromSearch_def

lemma cleanupTags_frame [simp]:
  "files (cleanupTags tx i) = files tx" "books (cleanupTags tx i) = books tx"
  "authors (cleanupTags tx i) = authors tx"
  "books_authors (cleanupTags tx i) = books_authors tx"
  by (simp_all add: store_ops Let_def)

lemma cleanupTags_tags:
  "tags (cleanupTags tx i) =
     filter (\<lambda>t. \<not> (t_id t \<in> ft_tag_id ` {l \<in> set (files_tags tx). ft_file_id l = i}
                    \<and> length (filter (\<lambda>l. ft_tag_id l = t_id t) (files_tags tx)) = 1))
       (tags tx)"
proof -
  let ?del = "filter (\<lambda>t. length (filter (\<lambda>l. ft_tag_id l = t) (files_tags tx)) = 1)
                (map ft_tag_id (filter (\<lambda>l. ft_file_id l = i) (files_tags tx)))"
  have "tags (cleanupTags tx i) = filter (\<lambda>t. t_id t \<notin> set ?del) (tags tx)"
    by (cases "?del = []") (simp_all add: store_ops Let_def)
  also have "\<dots> = filter (\<lambda>t. \<not> (t_id t \<in> ft_tag_id ` {l \<in> set (files_tags tx). ft_file_id l = i}
                    \<and> length (filter (\<lambda>l. ft_tag_id l = t_id t) (files_tags tx)) = 1)) (tags tx)"
    by (intro filter_cong) auto
  finally show ?thesis .
qed

lemma delete_files_frame [simp]:
  "files (delete_files P tx) = filter (\<lambda>f. \<not> P f) (files tx)"
  "books (delete_files P tx) = books tx" "authors (delete_files P tx) = authors tx"
  "books_authors (delete_files P tx) = books_authors tx" "tags (delete_files P tx) = tags tx"
  "books_fts (delete_files P tx) = books_fts tx"
  by (simp_all add: store_ops Let_def)

lemma deleteBook_frame:
  "books (deleteBook tx b) = filter (\<lambda>r. b_id r \<noteq> bk_ID b) (books tx)"
  "tags (deleteBook tx b) = tags tx"
  "files (deleteBook tx b) =
     filter (\<lambda>f. f_book_id f \<notin> set (map b_id (filter (\<lambda>r. b_id r = bk_ID b) (books tx)))) (files tx)"
  "authors (deleteBook tx b) =
     filter (\<lambda>a. \<not> (a_id a \<in> ba_author_id ` {l \<in> set (books_authors tx). ba_book_id l = bk_ID b}
                    \<and> length (filter (\<lambda>l. ba_author_id l = a_id a) (books_authors tx)) = 1))
       (authors tx)"
  "fts_docid ` set (books_fts (deleteBook tx b)) \<subseteq> fts_docid ` set (books_fts tx) - {bk_ID b}"
  by (auto simp add: store_ops Let_def intro: filter_cong)



lemma only_link_count:
  assumes "distinct (map (\<lambda>l. (ft_file_id l, ft_tag_id l)) ls)"
  shows "(t \<in> ft_tag_id ` {l \<in> set ls. ft_file_id l = i}
            \<and> length (filter (\<lambda>l. ft_tag_id l = t) ls) = 1)
         \<longleftrightarrow> ft_file_id ` {l \<in> set ls. ft_tag_id l = t} = {i}"
proof
  assume a: "t \<in> ft_tag_id ` {l \<in> set ls. ft_file_id l = i}
            \<and> length (filter (\<lambda>l. ft_tag_id l = t) ls) = 1"
  then obtain l where l: "l \<in> set ls" "ft_file_id l = i" "ft_tag_id l = t" by blast
  have "l' = l" if "l' \<in> set ls" "ft_tag_id l' = t" for l'
  proof (rule ccontr)
    assume "l' \<noteq> l"
    then have "2 \<le> length (filter (\<lambda>l. ft_tag_id l = t) ls)"
      using that l by (intro two_in_filter [of l' _ l]) simp_all
    then show False using a by simp
  qed
  then show "ft_file_id ` {l \<in> set ls. ft_tag_id l = t} = {i}"
    using l by blast
next
  assume b: "ft_file_id ` {l \<in> set ls. ft_tag_id l = t} = {i}"
  then have "i \<in> ft_file_id ` {l \<in> set ls. ft_tag_id l = t}" by simp
  then obtain l where l: "l \<in> set ls" "ft_file_id l = i" "ft_tag_id l = t" by blast
  have d: "distinct ls" and inj: "inj_on (\<lambda>l. (ft_file_id l, ft_tag_id l)) (set ls)"
    using assms by (simp_all add: distinct_map)
  have "\<forall>l'\<in>set ls. ft_tag_id l' = t \<longrightarrow> l' = l"
  proof (intro ballI impI)
    fix l' assume l': "l' \<in> set ls" "ft_tag_id l' = t"
    then have "ft_file_id l' \<in> ft_file_id ` {l \<in> set ls. ft_tag_id l = t}" by blast
    then have "ft_file_id l' = i" unfolding b by blast
    then have "(ft_file_id l', ft_tag_id l') = (ft_file_id l, ft_tag_id l)"
      using l l' by (simp only:)
    then show "l' = l"
      using inj_onD [OF inj _ l'(1) l(1)] by blast
  qed
  then have f: "filter (\<lambda>l. ft_tag_id l = t) ls = [l]"
    using d l(1) l(3) by (intro filter_only)
  have "t \<in> ft_tag_id ` {l \<in> set ls. ft_file_id l = i}"
    using l by blast
  moreover have "length (filter (\<lambda>l. ft_tag_id l = t) ls) = 1"
    by (simp add: f)
  ultimately show "t \<in> ft_tag_id ` {l \<in> set ls. ft_file_id l = i}
            \<and> length (filter (\<lambda>l. ft_tag_id l = t) ls) = 1" ..
qed

section \<open>ImportBook and a hash that is already stored\<close>

text \<open>
  Claim C1. When the record's single file has the hash of a stored file, \<open>ImportBook\<close>
  fails and the library is left as it was: nothing is added or changed. The id the error
  carries is the id of the first row of \<^verbatim>\<open>files\<close> with that hash, which the query
  \<^verbatim>\<open>select id from files where hash=?\<close> returns; it is the id of a file, not the id of
  the book that owns the file, although the message calls it the id of a book. In
  \<open>lib_ex\<close> the hash \<open>H3\<close> belongs to the file 3 of the book 1, and the error says 3.
\<close>

theorem ImportBook_duplicate_hash:
  assumes "bk_Files book = [bf]"
    and "filter (\<lambda>f. f_hash f = bf_Hash bf) (files lib) = f # others"
  shows "ImportBook ord fsys lib book move = (lib, Some (DuplicateBook (f_id f)))"
  using assms by (simp add: ImportBook_def)

theorem ImportBook_duplicate_hash_witness:
  "ImportBook (\<lambda>m. m) (\<lambda>bf move. True) lib_ex
     \<lparr>bk_ID = 0, bk_Series = '''', bk_Title = ''Other'', bk_Authors = [''Poe''],
      bk_Files = [file_new\<lparr>bf_Hash := ''H3''\<rparr>]\<rparr> False
   = (lib_ex, Some (DuplicateBook 3))
   \<and> map f_book_id (filter (\<lambda>f. f_hash f = ''H3'') (files lib_ex)) = [1]"
proof -
  have "filter (\<lambda>f. f_hash f = bf_Hash (file_new\<lparr>bf_Hash := ''H3''\<rparr>)) (files lib_ex) =
          [files lib_ex ! 2]"
    by code_simp
  from ImportBook_duplicate_hash [OF _ this, of _ "\<lambda>m. m" "\<lambda>bf move. True" False]
  have "ImportBook (\<lambda>m. m) (\<lambda>bf move. True) lib_ex
     \<lparr>bk_ID = 0, bk_Series = '''', bk_Title = ''Other'', bk_Authors = [''Poe''],
      bk_Files = [file_new\<lparr>bf_Hash := ''H3''\<rparr>]\<rparr> False
   = (lib_ex, Some (DuplicateBook (f_id (files lib_ex ! 2))))"
    by simp
  moreover have "f_id (files lib_ex ! 2) = 3"
    by code_simp
  moreover have "map f_book_id (filter (\<lambda>f. f_hash f = ''H3'') (files lib_ex)) = [1]"
    by code_simp
  ultimately show ?thesis by simp
qed

section \<open>ImportBook and UpdateBook when the book has no authors\<close>

text \<open>
  \<^verbatim>\<open>getBookIDByTitleAndAuthors\<close> looks for the book among the entries of the map
  \<^verbatim>\<open>getAuthorsByBookIds\<close> builds, and a book without authors has no entry there.
  So a book with an empty author list is never found, whatever order the map is ranged
  over (lemma \<open>no_authors_never_found\<close>).
\<close>

lemma insertTag_books: "insertTag tx tag bf = Inr tx' \<Longrightarrow> books tx' = books tx"
  by (auto simp: insertTag_def Let_def split: list.splits if_splits)

lemma insertTags_books: "insertTags tx ts bf = Inr tx' \<Longrightarrow> books tx' = books tx"
proof (induction ts arbitrary: tx)
  case Nil
  then show ?case by simp
next
  case (Cons t ts)
  then obtain tx1 where "insertTag tx t bf = Inr tx1" and "insertTags tx1 ts bf = Inr tx'"
    by (auto split: sum.splits)
  then show ?case
    using Cons.IH [of tx1] insertTag_books [of tx t bf tx1] by simp
qed

lemma insertTag_files: "insertTag tx tag bf = Inr tx' \<Longrightarrow> files tx' = files tx"
  by (auto simp: insertTag_def Let_def split: list.splits if_splits)

lemma insertTags_frame_files: "insertTags tx ts bf = Inr tx' \<Longrightarrow> files tx' = files tx"
proof (induction ts arbitrary: tx)
  case Nil
  then show ?case by simp
next
  case (Cons t ts)
  then obtain tx1 where "insertTag tx t bf = Inr tx1" and "insertTags tx1 ts bf = Inr tx'"
    by (auto split: sum.splits)
  then show ?case
    using Cons.IH [of tx1] insertTag_files [of tx t bf tx1] by simp
qed

text \<open>
  Claim C8. An import whose record has no authors never reuses a book: when it succeeds
  it has inserted a new book row and stored the file under the new id, also when a stored
  book has the record's title and no authors either. In \<open>lib_anon\<close> the record's title and
  (empty) author sequence are those of the book 2, and the import adds a book 3.
\<close>

theorem ImportBook_no_authors_adds_book:
  assumes "\<And>m. set (ord m) \<subseteq> set m" and "bk_Authors book = []"
    and "ImportBook ord fsys lib book move = (lib', None)"
  shows "books lib' = books lib @
           [\<lparr>b_id = next_id (map b_id (books lib)), b_series = bk_Series book,
             b_title = bk_Title book\<rparr>]
       \<and> (\<exists>f. files lib' = files lib @ [f] \<and> f_book_id f = next_id (map b_id (books lib)))"
proof -
  have nf: "getBookIDByTitleAndAuthors ord lib (bk_Title book) [] = (0, False)"
    by (rule no_authors_never_found [OF assms(1)])
  define row where "row = \<lparr>b_id = next_id (map b_id (books lib)), b_series = bk_Series book,
             b_title = bk_Title book\<rparr>"
  define tx1 where "tx1 = lib\<lparr>books := books lib @ [row]\<rparr>"
  define book1 where "book1 = book\<lparr>bk_ID := next_id (map b_id (books lib))\<rparr>"
  obtain tx2 newID tx3 tx4 where
    s: "insert_file tx1 (bk_ID book1) (hd (bk_Files book)) = Inr (tx2, newID)"
       "insertTags tx2 (bf_Tags (hd (bk_Files book))) ((hd (bk_Files book))\<lparr>bf_ID := newID\<rparr>) = Inr tx3"
       "indexBookInSearch tx3 book1 True = Inr tx4"
       "lib' = tx4"
    using assms(3)
    by (auto simp: ImportBook_def assms(2) nf Let_def tx1_def row_def book1_def
        split: if_splits list.splits sum.splits option.splits)
  have f2: "books tx2 = books tx1 \<and> (\<exists>f. files tx2 = files tx1 @ [f] \<and> f_book_id f = bk_ID book1)"
    using s(1) by (auto simp: insert_file_def Let_def split: if_splits)
  have f3: "books tx3 = books tx2" "files tx3 = files tx2"
    using insertTags_books [OF s(2)] insertTags_frame_files [OF s(2)] by simp_all
  have f4: "books tx4 = books tx3" "files tx4 = files tx3"
    using s(3) by (auto simp: indexBookInSearch_def insert_fts_def split: if_splits list.splits)
  show ?thesis
    using f2 f3 f4 by (simp add: s(4) tx1_def row_def book1_def)
qed

theorem ImportBook_no_authors_adds_book_witness:
  "snd (ImportBook (\<lambda>m. m) (\<lambda>bf move. True) lib_anon
     \<lparr>bk_ID = 0, bk_Series = '''', bk_Title = ''It'', bk_Authors = [], bk_Files = [file_new]\<rparr>
     False) = None
   \<and> map bk_Title (getBooksByID lib_anon [2]) = [''It'']
   \<and> map bk_Authors (getBooksByID lib_anon [2]) = [[]]
   \<and> map b_id (books lib_anon) = [1, 2]
   \<and> map b_id (books (fst (ImportBook (\<lambda>m. m) (\<lambda>bf move. True) lib_anon
     \<lparr>bk_ID = 0, bk_Series = '''', bk_Title = ''It'', bk_Authors = [], bk_Files = [file_new]\<rparr>
     False))) = [1, 2, 3]
   \<and> map f_book_id (files (fst (ImportBook (\<lambda>m. m) (\<lambda>bf move. True) lib_anon
     \<lparr>bk_ID = 0, bk_Series = '''', bk_Title = ''It'', bk_Authors = [], bk_Files = [file_new]\<rparr>
     False))) = [1, 2, 3]"
proof -
  let ?book = "\<lparr>bk_ID = 0, bk_Series = '''', bk_Title = ''It'', bk_Authors = [],
                 bk_Files = [file_new]\<rparr>"
  let ?run = "ImportBook (\<lambda>m. m) (\<lambda>bf move. True) lib_anon ?book False"
  have ok: "snd ?run = None"
    by code_simp
  then obtain lib' where r: "?run = (lib', None)"
    by (cases ?run) auto
  have "books lib' = books lib_anon @
           [\<lparr>b_id = next_id (map b_id (books lib_anon)), b_series = bk_Series ?book,
             b_title = bk_Title ?book\<rparr>]"
    using ImportBook_no_authors_adds_book [OF _ _ r] by simp
  then have "map b_id (books lib') = [1, 2, 3]"
    by (simp add: lib_anon_def next_id_def)
  then have "map b_id (books (fst ?run)) = [1, 2, 3]"
    by (simp add: r)
  moreover have "map bk_Title (getBooksByID lib_anon [2]) = [''It'']
   \<and> map bk_Authors (getBooksByID lib_anon [2]) = [[]]
   \<and> map b_id (books lib_anon) = [1, 2]
   \<and> map f_book_id (files (fst ?run)) = [1, 2, 3]"
    by code_simp
  ultimately show ?thesis
    using ok by simp
qed

text \<open>
  With at least one author the import reuses the book. If no stored file has
  the file's hash or name, some book has the record's title and author sequence, every
  book has its search document, and the file can be moved or copied, then \<open>ImportBook\<close>
  succeeds; it adds no book, no author and no link; it appends one file row, under the id
  of a book with that title and those authors; and in that book's document it appends
  the file's tags, extension and source, each after a space, and changes nothing else.
\<close>

lemma insertTag_frame:
  assumes "bf_ID bf \<in> set (map f_id (files tx))"
  shows "\<exists>tx'. insertTag tx tag bf = Inr tx' \<and> books tx' = books tx \<and> files tx' = files tx
           \<and> authors tx' = authors tx \<and> books_authors tx' = books_authors tx
           \<and> books_fts tx' = books_fts tx"
  using assms by (auto simp: insertTag_def Let_def split: list.splits)

lemma insertTags_frame:
  assumes "bf_ID bf \<in> set (map f_id (files tx))"
  shows "\<exists>tx'. insertTags tx ts bf = Inr tx' \<and> books tx' = books tx \<and> files tx' = files tx
           \<and> authors tx' = authors tx \<and> books_authors tx' = books_authors tx
           \<and> books_fts tx' = books_fts tx"
  using assms
proof (induction ts arbitrary: tx)
  case Nil
  then show ?case by simp
next
  case (Cons t ts)
  obtain tx1 where t1: "insertTag tx t bf = Inr tx1" "books tx1 = books tx" "files tx1 = files tx"
    "authors tx1 = authors tx" "books_authors tx1 = books_authors tx" "books_fts tx1 = books_fts tx"
    using insertTag_frame [OF Cons.prems] by blast
  have "bf_ID bf \<in> set (map f_id (files tx1))"
    using Cons.prems by (simp add: t1)
  from Cons.IH [OF this] show ?case
    by (auto simp: t1)
qed

lemma ImportBook_reuses_book:
  assumes "\<And>m. set (ord m) = set m"
    and "bk_Files book = [bf]"
    and "bf_Hash bf \<notin> set (map f_hash (files lib))"
    and "bf_CurrentFilename bf \<notin> set (map f_filename (files lib))"
    and "r \<in> set (books lib)" and "b_title r = bk_Title book"
    and "lookup (getAuthorsByBookIds lib [b_id r]) (b_id r) = bk_Authors book"
    and "bk_Authors book \<noteq> []"
    and "distinct (map fts_docid (books_fts lib))"
    and "b_id ` set (books lib) \<subseteq> fts_docid ` set (books_fts lib)"
    and "fsys bf move"
  shows "\<exists>k lib'. ImportBook ord fsys lib book move = (lib', None)
           \<and> k \<in> b_id ` {r \<in> set (books lib). b_title r = bk_Title book}
           \<and> lookup (getAuthorsByBookIds lib [k]) k = bk_Authors book
           \<and> books lib' = books lib \<and> authors lib' = authors lib
           \<and> books_authors lib' = books_authors lib
           \<and> files lib' = files lib @
                [\<lparr>f_id = next_id (map f_id (files lib)), f_book_id = k,
                  f_extension = bf_Extension bf, f_original_filename = bf_OriginalFilename bf,
                  f_filename = bf_CurrentFilename bf, f_file_size = bf_FileSize bf,
                  f_file_mtime = bf_FileMtime bf, f_hash = bf_Hash bf, f_source = bf_Source bf\<rparr>]
           \<and> books_fts lib' = map
                (\<lambda>d. if fts_docid d = k
                     then d\<lparr>fts_tags := fts_tags d @ '' '' @ Join (bf_Tags bf) '' '',
                            fts_extension := fts_extension d @ '' '' @ bf_Extension bf,
                            fts_source := fts_source d @ '' '' @ bf_Source bf\<rparr>
                     else d)
                (books_fts lib)"
proof -
  have sub: "\<And>m. set (ord m) \<subseteq> set m" "\<And>m. set m \<subseteq> set (ord m)"
    using assms(1) by simp_all
  obtain k where k: "getBookIDByTitleAndAuthors ord lib (bk_Title book) (bk_Authors book) = (k, True)"
    using match_is_found [OF sub(2) assms(5,6,7,8)] by blast
  note f = found_is_a_match [OF sub(1) k]
  have kb: "k \<in> set (map b_id (books lib))"
    using f by auto
  define row where "row = \<lparr>f_id = next_id (map f_id (files lib)), f_book_id = k,
                  f_extension = bf_Extension bf, f_original_filename = bf_OriginalFilename bf,
                  f_filename = bf_CurrentFilename bf, f_file_size = bf_FileSize bf,
                  f_file_mtime = bf_FileMtime bf, f_hash = bf_Hash bf, f_source = bf_Source bf\<rparr>"
  define tx2 where "tx2 = lib\<lparr>files := files lib @ [row]\<rparr>"
  have ins: "insert_file lib k bf = Inr (tx2, next_id (map f_id (files lib)))"
    using assms(3,4) kb by (simp add: insert_file_def Let_def tx2_def row_def)
  have "bf_ID (bf\<lparr>bf_ID := next_id (map f_id (files lib))\<rparr>) \<in> set (map f_id (files tx2))"
    by (simp add: tx2_def row_def)
  from insertTags_frame [OF this, of "bf_Tags bf"]
  obtain tx3 where t3: "insertTags tx2 (bf_Tags bf) (bf\<lparr>bf_ID := next_id (map f_id (files lib))\<rparr>) = Inr tx3"
    "books tx3 = books tx2" "files tx3 = files tx2" "authors tx3 = authors tx2"
    "books_authors tx3 = books_authors tx2" "books_fts tx3 = books_fts tx2"
    by blast
  obtain d where d: "d \<in> set (books_fts lib)" "fts_docid d = k"
    using assms(10) kb by auto
  have one: "filter (\<lambda>x. fts_docid x = k) (books_fts lib) = [d]"
    using filter_key_singleton [OF assms(9) d(1)] by (simp add: d(2))
  define docs where "docs = map
                (\<lambda>d. if fts_docid d = k
                     then d\<lparr>fts_tags := fts_tags d @ '' '' @ Join (bf_Tags bf) '' '',
                            fts_extension := fts_extension d @ '' '' @ bf_Extension bf,
                            fts_source := fts_source d @ '' '' @ bf_Source bf\<rparr>
                     else d)
                (books_fts lib)"
  have same: "(if fts_docid x = k
                then x\<lparr>fts_tags := fts_tags d @ '' '' @ Join (bf_Tags bf) '' '',
                       fts_extension := fts_extension d @ '' '' @ bf_Extension bf,
                       fts_source := fts_source d @ '' '' @ bf_Source bf\<rparr>
                else x)
           = (if fts_docid x = k
                then x\<lparr>fts_tags := fts_tags x @ '' '' @ Join (bf_Tags bf) '' '',
                       fts_extension := fts_extension x @ '' '' @ bf_Extension bf,
                       fts_source := fts_source x @ '' '' @ bf_Source bf\<rparr>
                else x)" if "x \<in> set (books_fts lib)" for x
  proof (cases "fts_docid x = k")
    case True
    then have "x = d"
      using assms(9) d that by (auto simp: distinct_map inj_on_def)
    then show ?thesis by simp
  next
    case False
    then show ?thesis by simp
  qed
  have idx: "indexBookInSearch tx3 (book\<lparr>bk_ID := k\<rparr>) False = Inr (tx3\<lparr>books_fts := docs\<rparr>)"
    using same
    by (simp add: indexBookInSearch_def assms(2) append_fts_def t3 tx2_def one d(2) docs_def
        cong: map_cong)
  have mv: "moveOrCopyFile fsys (book\<lparr>bk_ID := k\<rparr>) move = None"
    using assms(11) by (simp add: moveOrCopyFile_def assms(2))
  have nodup: "filter (\<lambda>f. f_hash f = bf_Hash bf) (files lib) = []"
    using assms(3) by (force simp: filter_empty_conv)
  have "ImportBook ord fsys lib book move = (tx3\<lparr>books_fts := docs\<rparr>, None)"
    by (simp add: ImportBook_def assms(2) nodup k ins t3(1) idx mv)
  then show ?thesis
    using f t3 unfolding docs_def tx2_def row_def by auto
qed

text \<open>
  For instance, an import with the title and the two authors of the book 2 of \<open>lib_ex\<close>
  adds no book and no author, stores the file under the book 2 and appends its extension
  to the book's document; with the authors in the other order the outcome differs.
\<close>

lemma ImportBook_reuses_named_book:
  "snd (ImportBook (\<lambda>m. m) (\<lambda>bf move. True) lib_ex
     \<lparr>bk_ID = 0, bk_Series = '''', bk_Title = ''Talisman'',
      bk_Authors = [''King'', ''Straub''], bk_Files = [file_new]\<rparr> False) = None
   \<and> books (fst (ImportBook (\<lambda>m. m) (\<lambda>bf move. True) lib_ex
     \<lparr>bk_ID = 0, bk_Series = '''', bk_Title = ''Talisman'',
      bk_Authors = [''King'', ''Straub''], bk_Files = [file_new]\<rparr> False)) = books lib_ex
   \<and> authors (fst (ImportBook (\<lambda>m. m) (\<lambda>bf move. True) lib_ex
     \<lparr>bk_ID = 0, bk_Series = '''', bk_Title = ''Talisman'',
      bk_Authors = [''King'', ''Straub''], bk_Files = [file_new]\<rparr> False)) = authors lib_ex
   \<and> map f_book_id (files (fst (ImportBook (\<lambda>m. m) (\<lambda>bf move. True) lib_ex
     \<lparr>bk_ID = 0, bk_Series = '''', bk_Title = ''Talisman'',
      bk_Authors = [''King'', ''Straub''], bk_Files = [file_new]\<rparr> False))) = [1, 2, 1, 2]
   \<and> map fts_extension (books_fts (fst (ImportBook (\<lambda>m. m) (\<lambda>bf move. True) lib_ex
     \<lparr>bk_ID = 0, bk_Series = '''', bk_Title = ''Talisman'',
      bk_Authors = [''King'', ''Straub''], bk_Files = [file_new]\<rparr> False))) =
       [''epub pdf'', ''epub mobi'']
   \<and> ImportBook (\<lambda>m. m) (\<lambda>bf move. True) lib_ex
     \<lparr>bk_ID = 0, bk_Series = '''', bk_Title = ''Talisman'',
      bk_Authors = [''Straub'', ''King''], bk_Files = [file_new]\<rparr> False
     \<noteq> ImportBook (\<lambda>m. m) (\<lambda>bf move. True) lib_ex
     \<lparr>bk_ID = 0, bk_Series = '''', bk_Title = ''Talisman'',
      bk_Authors = [''King'', ''Straub''], bk_Files = [file_new]\<rparr> False"
  by code_simp

text \<open>
  Claim C6. \<open>UpdateBook\<close> never returns \<open>BookExistsError\<close> when the record has no
  authors, also when another book already has the record's title and no authors. In
  \<open>lib_anon\<close>, giving the book 1 the title and the (empty) authors of the book 2 succeeds,
  and the library then holds two books with the same title and authors.
\<close>

theorem UpdateBook_no_authors_never_collides:
  assumes "\<And>m. set (ord m) \<subseteq> set m" and "bk_Authors book = []"
  shows "snd (UpdateBook ord lib book updateSeries) \<noteq> Some (BookExistsError i)"
  using no_authors_never_found [OF assms(1), of lib "bk_Title book"]
  by (auto simp: UpdateBook_def assms(2) Let_def
      split: list.splits sum.splits if_splits)

theorem UpdateBook_no_authors_never_collides_witness:
  "snd (UpdateBook (\<lambda>m. m) lib_anon
          \<lparr>bk_ID = 1, bk_Series = '''', bk_Title = ''It'', bk_Authors = [], bk_Files = []\<rparr> False)
     \<noteq> Some (BookExistsError 2)
   \<and> snd (UpdateBook (\<lambda>m. m) lib_anon
          \<lparr>bk_ID = 1, bk_Series = '''', bk_Title = ''It'', bk_Authors = [], bk_Files = []\<rparr> False)
     = None
   \<and> map bk_ID (getBooksByID lib_anon [1, 2]) = [1, 2]
   \<and> map bk_Title (getBooksByID lib_anon [1, 2]) = [''Shining'', ''It'']
   \<and> map bk_Authors (getBooksByID lib_anon [1, 2]) = [[''King''], []]
   \<and> map bk_Title (getBooksByID (fst (UpdateBook (\<lambda>m. m) lib_anon
          \<lparr>bk_ID = 1, bk_Series = '''', bk_Title = ''It'', bk_Authors = [], bk_Files = []\<rparr> False))
        [1, 2]) = [''It'', ''It'']
   \<and> map bk_Authors (getBooksByID (fst (UpdateBook (\<lambda>m. m) lib_anon
          \<lparr>bk_ID = 1, bk_Series = '''', bk_Title = ''It'', bk_Authors = [], bk_Files = []\<rparr> False))
        [1, 2]) = [[], []]"
proof -
  have "snd (UpdateBook (\<lambda>m. m) lib_anon
          \<lparr>bk_ID = 1, bk_Series = '''', bk_Title = ''It'', bk_Authors = [], bk_Files = []\<rparr> False)
     \<noteq> Some (BookExistsError 2)"
    by (rule UpdateBook_no_authors_never_collides) simp_all
  moreover have "snd (UpdateBook (\<lambda>m. m) lib_anon
          \<lparr>bk_ID = 1, bk_Series = '''', bk_Title = ''It'', bk_Authors = [], bk_Files = []\<rparr> False)
     = None
   \<and> map bk_ID (getBooksByID lib_anon [1, 2]) = [1, 2]
   \<and> map bk_Title (getBooksByID lib_anon [1, 2]) = [''Shining'', ''It'']
   \<and> map bk_Authors (getBooksByID lib_anon [1, 2]) = [[''King''], []]
   \<and> map bk_Title (getBooksByID (fst (UpdateBook (\<lambda>m. m) lib_anon
          \<lparr>bk_ID = 1, bk_Series = '''', bk_Title = ''It'', bk_Authors = [], bk_Files = []\<rparr> False))
        [1, 2]) = [''It'', ''It'']
   \<and> map bk_Authors (getBooksByID (fst (UpdateBook (\<lambda>m. m) lib_anon
          \<lparr>bk_ID = 1, bk_Series = '''', bk_Title = ''It'', bk_Authors = [], bk_Files = []\<rparr> False))
        [1, 2]) = [[], []]"
    by code_simp
  ultimately show ?thesis by blast
qed

text \<open>
  With at least one author the update reports the collision. If the record's title
  and author sequence are not those of the book itself but those of some stored book,
  \<open>UpdateBook\<close> fails with \<open>BookExistsError\<close>, the id it carries is the id of another book
  with that title and those authors, and the library is unchanged.
\<close>

lemma UpdateBook_reports_collision:
  assumes "\<And>m. set (ord m) = set m"
    and "distinct (map b_id (books lib))"
    and "getBooksByID lib [bk_ID book] = existingBook # others"
    and "\<not> (bk_Title existingBook = bk_Title book \<and> bk_Authors existingBook = bk_Authors book)"
    and "r \<in> set (books lib)" and "b_title r = bk_Title book"
    and "lookup (getAuthorsByBookIds lib [b_id r]) (b_id r) = bk_Authors book"
    and "bk_Authors book \<noteq> []"
  shows "\<exists>k. UpdateBook ord lib book updateSeries = (lib, Some (BookExistsError k))
           \<and> k \<noteq> bk_ID book
           \<and> k \<in> b_id ` {r \<in> set (books lib). b_title r = bk_Title book}
           \<and> lookup (getAuthorsByBookIds lib [k]) k = bk_Authors book"
proof -
  have sub: "\<And>m. set (ord m) \<subseteq> set m" "\<And>m. set m \<subseteq> set (ord m)"
    using assms(1) by simp_all
  obtain k where k: "getBookIDByTitleAndAuthors ord lib (bk_Title book) (bk_Authors book) = (k, True)"
    using match_is_found [OF sub(2) assms(5,6,7,8)] by blast
  note f = found_is_a_match [OF sub(1) k]
  have "existingBook \<in> set (getBooksByID lib [bk_ID book])"
    by (simp add: assms(3))
  then obtain r0 where r0: "r0 \<in> set (books lib)" "b_id r0 = bk_ID book"
    using getBooksByID_member [of existingBook lib "[bk_ID book]"] by auto
  have e: "bk_Title existingBook = b_title r0"
    "bk_Authors existingBook = lookup (getAuthorsByBookIds lib [bk_ID book]) (bk_ID book)"
    using getBooksByID_single [OF assms(2) r0(1)] assms(3) by (auto simp: r0(2))
  have ne: "k \<noteq> bk_ID book"
  proof
    assume eq: "k = bk_ID book"
    then obtain r1 where r1: "r1 \<in> set (books lib)" "b_id r1 = bk_ID book" "b_title r1 = bk_Title book"
      using f by auto
    have "r1 = r0"
      using assms(2) r0 r1 by (auto simp: distinct_map inj_on_def)
    then show False
      using assms(4) e r1 f eq by simp
  qed
  have "UpdateBook ord lib book updateSeries = (lib, Some (BookExistsError k))"
    using assms(4) ne by (auto simp: UpdateBook_def assms(3) authorsEqual_iff k)
  then show ?thesis
    using ne f by blast
qed

text \<open>
  For instance, giving the book 1 of \<open>lib_ex\<close> the title and the authors of the book 2
  fails with the id 2 and changes nothing.
\<close>

lemma UpdateBook_reports_named_collision:
  "UpdateBook (\<lambda>m. m) lib_ex
     \<lparr>bk_ID = 1, bk_Series = '''', bk_Title = ''Talisman'',
      bk_Authors = [''King'', ''Straub''], bk_Files = []\<rparr> False
   = (lib_ex, Some (BookExistsError 2))"
  by code_simp

section \<open>UpdateBook with nothing to change\<close>

text \<open>
  Claim C5. If the book the record names exists, and the record's title and author
  sequence equal the stored ones, and so does its series when \<open>updateSeries\<close> is set,
  then \<open>UpdateBook\<close> returns no error and the library is exactly what it was. The stored
  values are those \<^verbatim>\<open>getBooksByID\<close> reads.
\<close>

theorem UpdateBook_unchanged_is_noop:
  assumes "getBooksByID lib [bk_ID book] = existingBook # others"
    and "bk_Title existingBook = bk_Title book"
    and "bk_Authors existingBook = bk_Authors book"
    and "updateSeries \<longrightarrow> bk_Series existingBook = bk_Series book"
  shows "UpdateBook ord lib book updateSeries = (lib, None)"
  using assms by (auto simp: UpdateBook_def authorsEqual_iff)

theorem UpdateBook_unchanged_is_noop_witness:
  "UpdateBook (\<lambda>m. m) lib_ex
     \<lparr>bk_ID = 2, bk_Series = '''', bk_Title = ''Talisman'',
      bk_Authors = [''King'', ''Straub''], bk_Files = []\<rparr> True = (lib_ex, None)"
proof -
  have "getBooksByID lib_ex [2] =
          \<lparr>bk_ID = 2, bk_Series = '''', bk_Title = ''Talisman'',
           bk_Authors = [''King'', ''Straub''], bk_Files = [file_two]\<rparr> # []"
    by code_simp
  from UpdateBook_unchanged_is_noop [OF _ _ _ _, of lib_ex _ _ "[]" True "\<lambda>m. m"] this
  show ?thesis by simp
qed

section \<open>Search and SearchPaged\<close>

text \<open>
  Claim C10. \<open>Search\<close> returns the books of \<open>SearchPaged\<close> called with 0, 0 and 0, and
  its error when it fails. With a limit of 0, \<open>SearchPaged\<close> returns 0 more results and
  the books of every matching document, whatever the offset and the limit of more results
  are: the books returned are the rows of \<^verbatim>\<open>books\<close> whose id is the docid of a document
  that matches, in the order of the table, each with its series, its title, its authors
  and all its files with their tags (file ids being unique).
\<close>

theorem Search_returns_all_matches:
  "Search mtch lib terms =
     (case SearchPaged mtch lib terms 0 0 0 of Inl e \<Rightarrow> Inl e | Inr r \<Rightarrow> Inr (fst r))
   \<and> SearchPaged mtch lib terms offset 0 moreResultsLimit =
     (case mtch terms of
        None \<Rightarrow> Inl QueryFailed
      | Some m \<Rightarrow> Inr (GetBooksByID lib (map fts_docid (filter m (books_fts lib))), 0))
   \<and> (mtch terms = Some matches \<longrightarrow>
       (\<exists>bks. Search mtch lib terms = Inr bks
            \<and> SearchPaged mtch lib terms offset 0 moreResultsLimit = Inr (bks, 0)
            \<and> map bk_ID bks =
                filter (\<lambda>i. i \<in> set (map fts_docid (filter matches (books_fts lib))))
                  (map b_id (books lib))
            \<and> (distinct (map f_id (files lib)) \<longrightarrow>
                bks =
                  map (\<lambda>r. \<lparr>bk_ID = b_id r, bk_Series = b_series r, bk_Title = b_title r,
                        bk_Authors = concat (map
                          (\<lambda>l. map a_name (filter (\<lambda>a. a_id a = ba_author_id l) (authors lib)))
                          (filter (\<lambda>l. ba_book_id l = b_id r) (sort_key ba_id (books_authors lib)))),
                        bk_Files = map
                          (\<lambda>f. \<lparr>bf_ID = f_id f, bf_Extension = f_extension f,
                                bf_OriginalFilename = f_original_filename f,
                                bf_CurrentFilename = f_filename f, bf_FileSize = f_file_size f,
                                bf_FileMtime = f_file_mtime f, bf_Hash = f_hash f,
                                bf_Source = f_source f,
                                bf_Tags = concat (map
                                  (\<lambda>l. map t_name (filter (\<lambda>t. t_id t = ft_tag_id l) (tags lib)))
                                  (filter (\<lambda>l. ft_file_id l = f_id f)
                                    (sort_key ft_id (files_tags lib))))\<rparr>)
                          (filter (\<lambda>f. f_book_id f = b_id r) (files lib))\<rparr>)
                    (filter (\<lambda>r. b_id r \<in> set (map fts_docid (filter matches (books_fts lib))))
                      (books lib)))))"
proof (intro conjI impI)
  show "Search mtch lib terms =
     (case SearchPaged mtch lib terms 0 0 0 of Inl e \<Rightarrow> Inl e | Inr r \<Rightarrow> Inr (fst r))"
    by (simp add: Search_def split: sum.split)
next
  show "SearchPaged mtch lib terms offset 0 moreResultsLimit =
     (case mtch terms of
        None \<Rightarrow> Inl QueryFailed
      | Some m \<Rightarrow> Inr (GetBooksByID lib (map fts_docid (filter m (books_fts lib))), 0))"
    by (simp add: SearchPaged_def split: option.split)
next
  assume m: "mtch terms = Some matches"
  let ?found = "map fts_docid (filter matches (books_fts lib))"
  have p: "SearchPaged mtch lib terms x 0 y = Inr (GetBooksByID lib ?found, 0)" for x y
    by (simp add: SearchPaged_def m)
  have s: "Search mtch lib terms = Inr (GetBooksByID lib ?found)"
    by (simp add: Search_def p)
  have r: "distinct (map f_id (files lib)) \<longrightarrow> GetBooksByID lib ?found =
                  map (\<lambda>r. \<lparr>bk_ID = b_id r, bk_Series = b_series r, bk_Title = b_title r,
                        bk_Authors = concat (map
                          (\<lambda>l. map a_name (filter (\<lambda>a. a_id a = ba_author_id l) (authors lib)))
                          (filter (\<lambda>l. ba_book_id l = b_id r) (sort_key ba_id (books_authors lib)))),
                        bk_Files = map
                          (\<lambda>f. \<lparr>bf_ID = f_id f, bf_Extension = f_extension f,
                                bf_OriginalFilename = f_original_filename f,
                                bf_CurrentFilename = f_filename f, bf_FileSize = f_file_size f,
                                bf_FileMtime = f_file_mtime f, bf_Hash = f_hash f,
                                bf_Source = f_source f,
                                bf_Tags = concat (map
                                  (\<lambda>l. map t_name (filter (\<lambda>t. t_id t = ft_tag_id l) (tags lib)))
                                  (filter (\<lambda>l. ft_file_id l = f_id f)
                                    (sort_key ft_id (files_tags lib))))\<rparr>)
                          (filter (\<lambda>f. f_book_id f = b_id r) (files lib))\<rparr>)
                    (filter (\<lambda>r. b_id r \<in> set ?found) (books lib))"
    using GetBooksByID_rows [of lib ?found] by blast
  show "\<exists>bks. Search mtch lib terms = Inr bks
            \<and> SearchPaged mtch lib terms offset 0 moreResultsLimit = Inr (bks, 0)
            \<and> map bk_ID bks = filter (\<lambda>i. i \<in> set ?found) (map b_id (books lib))
            \<and> (distinct (map f_id (files lib)) \<longrightarrow>
                bks =
                  map (\<lambda>r. \<lparr>bk_ID = b_id r, bk_Series = b_series r, bk_Title = b_title r,
                        bk_Authors = concat (map
                          (\<lambda>l. map a_name (filter (\<lambda>a. a_id a = ba_author_id l) (authors lib)))
                          (filter (\<lambda>l. ba_book_id l = b_id r) (sort_key ba_id (books_authors lib)))),
                        bk_Files = map
                          (\<lambda>f. \<lparr>bf_ID = f_id f, bf_Extension = f_extension f,
                                bf_OriginalFilename = f_original_filename f,
                                bf_CurrentFilename = f_filename f, bf_FileSize = f_file_size f,
                                bf_FileMtime = f_file_mtime f, bf_Hash = f_hash f,
                                bf_Source = f_source f,
                                bf_Tags = concat (map
                                  (\<lambda>l. map t_name (filter (\<lambda>t. t_id t = ft_tag_id l) (tags lib)))
                                  (filter (\<lambda>l. ft_file_id l = f_id f)
                                    (sort_key ft_id (files_tags lib))))\<rparr>)
                          (filter (\<lambda>f. f_book_id f = b_id r) (files lib))\<rparr>)
                    (filter (\<lambda>r. b_id r \<in> set ?found) (books lib)))"
    using s p [of offset moreResultsLimit] GetBooksByID_ids [of lib ?found] r by blast
qed

theorem Search_returns_all_matches_witness:
  "Search (\<lambda>terms. Some (\<lambda>d. take (length terms) (fts_author d) = terms)) lib_ex ''King'' =
     Inr [\<lparr>bk_ID = 1, bk_Series = '''', bk_Title = ''Shining'', bk_Authors = [''King''],
           bk_Files = [file_one, file_three]\<rparr>,
          \<lparr>bk_ID = 2, bk_Series = '''', bk_Title = ''Talisman'', bk_Authors = [''King'', ''Straub''],
           bk_Files = [file_two]\<rparr>]
   \<and> SearchPaged (\<lambda>terms. Some (\<lambda>d. take (length terms) (fts_author d) = terms)) lib_ex ''King'' 7 0 3 =
     Inr ([\<lparr>bk_ID = 1, bk_Series = '''', bk_Title = ''Shining'', bk_Authors = [''King''],
            bk_Files = [file_one, file_three]\<rparr>,
           \<lparr>bk_ID = 2, bk_Series = '''', bk_Title = ''Talisman'', bk_Authors = [''King'', ''Straub''],
            bk_Files = [file_two]\<rparr>], 0)"
proof -
  let ?mtch = "\<lambda>terms. Some (\<lambda>d. take (length terms) (fts_author d) = terms)"
  let ?matches = "\<lambda>d. take (length ''King'') (fts_author d) = ''King''"
  let ?rows = "map (\<lambda>r. \<lparr>bk_ID = b_id r, bk_Series = b_series r, bk_Title = b_title r,
                        bk_Authors = concat (map
                          (\<lambda>l. map a_name (filter (\<lambda>a. a_id a = ba_author_id l) (authors lib_ex)))
                          (filter (\<lambda>l. ba_book_id l = b_id r) (sort_key ba_id (books_authors lib_ex)))),
                        bk_Files = map
                          (\<lambda>f. \<lparr>bf_ID = f_id f, bf_Extension = f_extension f,
                                bf_OriginalFilename = f_original_filename f,
                                bf_CurrentFilename = f_filename f, bf_FileSize = f_file_size f,
                                bf_FileMtime = f_file_mtime f, bf_Hash = f_hash f,
                                bf_Source = f_source f,
                                bf_Tags = concat (map
                                  (\<lambda>l. map t_name (filter (\<lambda>t. t_id t = ft_tag_id l) (tags lib_ex)))
                                  (filter (\<lambda>l. ft_file_id l = f_id f)
                                    (sort_key ft_id (files_tags lib_ex))))\<rparr>)
                          (filter (\<lambda>f. f_book_id f = b_id r) (files lib_ex))\<rparr>)
                    (filter (\<lambda>r. b_id r \<in> set (map fts_docid (filter ?matches (books_fts lib_ex))))
                      (books lib_ex))"
  have m: "?mtch ''King'' = Some ?matches"
    by simp
  have d: "distinct (map f_id (files lib_ex))"
    by (simp add: lib_ex_def)
  have e: "?rows =
     [\<lparr>bk_ID = 1, bk_Series = '''', bk_Title = ''Shining'', bk_Authors = [''King''],
           bk_Files = [file_one, file_three]\<rparr>,
          \<lparr>bk_ID = 2, bk_Series = '''', bk_Title = ''Talisman'', bk_Authors = [''King'', ''Straub''],
           bk_Files = [file_two]\<rparr>]"
    by code_simp
  note t = Search_returns_all_matches [of ?mtch lib_ex "''King''" 7 3 ?matches]
  from t [THEN conjunct2, THEN conjunct2, THEN mp, OF m]
  obtain bks where s: "Search ?mtch lib_ex ''King'' = Inr bks"
    and p: "SearchPaged ?mtch lib_ex ''King'' 7 0 3 = Inr (bks, 0)"
    and r: "distinct (map f_id (files lib_ex)) \<longrightarrow> bks = ?rows"
    by blast
  have "bks = ?rows"
    using r d by blast
  then show ?thesis
    using s p e by simp
qed

text \<open>Sums and differences of 64-bit signed integers, where they stay in range.\<close>

lemma sint_add_nonneg:
  fixes a b :: "64 word"
  assumes "0 \<le> sint a" "0 \<le> sint b"
  shows "(sint a + sint b < 2 ^ 63 \<longrightarrow> sint (a + b) = sint a + sint b)
       \<and> (2 ^ 63 \<le> sint a + sint b \<longrightarrow> sint (a + b) < 0)"
proof -
  have ra: "sint a < 2 ^ 63" and rb: "sint b < 2 ^ 63"
    using sint_lt [of a] sint_lt [of b] by simp_all
  have e: "sint (a + b) = signed_take_bit 63 (sint a + sint b)"
    by (simp add: sint_word_ariths)
  show ?thesis
  proof (intro conjI impI)
    assume "sint a + sint b < 2 ^ 63"
    then show "sint (a + b) = sint a + sint b"
      using assms unfolding e by (intro signed_take_bit_int_eq_self) simp_all
  next
    assume h: "2 ^ 63 \<le> sint a + sint b"
    then have "signed_take_bit 63 (sint a + sint b) \<le> sint a + sint b - 2 ^ Suc 63"
      by (intro signed_take_bit_int_less_eq) simp
    then have "signed_take_bit 63 (sint a + sint b) \<le> sint a + sint b - 18446744073709551616"
      by simp
    moreover have "sint a < 9223372036854775808" "sint b < 9223372036854775808"
      using ra rb by simp_all
    ultimately have "signed_take_bit 63 (sint a + sint b) < 0"
      by linarith
    then show "sint (a + b) < 0"
      by (simp only: e)
  qed
qed

lemma sint_more:
  fixes limit :: "64 word"
  assumes "0 < sint limit" "sint limit < int n" "n < 2 ^ 63"
  shows "sint (word_of_nat n - limit) = int n - sint limit"
proof -
  have n: "sint (word_of_nat n :: 64 word) = int n"
    using assms(3) by (simp add: signed_of_nat signed_take_bit_int_eq_self)
  have "sint (word_of_nat n - limit) = signed_take_bit 63 (int n - sint limit)"
    by (simp add: sint_word_ariths n)
  also have "\<dots> = int n - sint limit"
    using assms by (intro signed_take_bit_int_eq_self) simp_all
  finally show ?thesis .
qed

text \<open>
  Claim C9. Let the limit be positive and the offset and the limit of more results be
  non-negative, and let \<open>window\<close> be the matching documents after the first \<open>offset\<close>.
  \<open>SearchPaged\<close> returns the books of the first \<open>limit\<close> documents of the window: the
  rows of \<^verbatim>\<open>books\<close> whose id is the docid of one of these documents, in the order of
  the table, each with its series, its title, its authors and all its files with their
  tags (file ids being unique). They are at most \<open>limit\<close> books, and exactly as many as
  there are such documents when docids are unique and every document has its book.
  \<open>moreResults\<close> is the number of documents of the window beyond \<open>limit\<close>, cut at
  \<open>moreResultsLimit\<close>. The query yields at most \<open>limit + moreResultsLimit\<close> rows. The
  sum \<^verbatim>\<open>limit+moreResultsLimit\<close> may wrap to a negative number, which SQLite reads as
  no limit; the statement holds then too, since a table has fewer than \<open>2 ^ 63\<close> rows.
  Book ids are unique (a primary key).
\<close>

theorem SearchPaged_window:
  fixes limit offset moreResultsLimit :: "64 word"
  assumes "0 < sint limit" and "0 \<le> sint offset" and "0 \<le> sint moreResultsLimit"
    and "mtch terms = Some matches"
    and "distinct (map b_id (books lib))"
    and "length (books_fts lib) < 2 ^ 63"
    and "window = drop (nat (sint offset)) (map fts_docid (filter matches (books_fts lib)))"
  shows "\<exists>bks moreResults.
           SearchPaged mtch lib terms offset limit moreResultsLimit = Inr (bks, moreResults)
         \<and> bks = GetBooksByID lib (take (nat (sint limit)) window)
         \<and> map bk_ID bks =
             filter (\<lambda>i. i \<in> set (take (nat (sint limit)) window)) (map b_id (books lib))
         \<and> (distinct (map f_id (files lib)) \<longrightarrow>
              bks =
                map (\<lambda>r. \<lparr>bk_ID = b_id r, bk_Series = b_series r, bk_Title = b_title r,
                    bk_Authors = concat (map
                      (\<lambda>l. map a_name (filter (\<lambda>a. a_id a = ba_author_id l) (authors lib)))
                      (filter (\<lambda>l. ba_book_id l = b_id r) (sort_key ba_id (books_authors lib)))),
                    bk_Files = map
                      (\<lambda>f. \<lparr>bf_ID = f_id f, bf_Extension = f_extension f,
                            bf_OriginalFilename = f_original_filename f,
                            bf_CurrentFilename = f_filename f, bf_FileSize = f_file_size f,
                            bf_FileMtime = f_file_mtime f, bf_Hash = f_hash f,
                            bf_Source = f_source f,
                            bf_Tags = concat (map
                              (\<lambda>l. map t_name (filter (\<lambda>t. t_id t = ft_tag_id l) (tags lib)))
                              (filter (\<lambda>l. ft_file_id l = f_id f)
                                (sort_key ft_id (files_tags lib))))\<rparr>)
                      (filter (\<lambda>f. f_book_id f = b_id r) (files lib))\<rparr>)
                (filter (\<lambda>r. b_id r \<in> set (take (nat (sint limit)) window)) (books lib)))
         \<and> int (length bks) \<le> sint limit
         \<and> (distinct (map fts_docid (books_fts lib))
              \<and> set (map fts_docid (books_fts lib)) \<subseteq> set (map b_id (books lib)) \<longrightarrow>
              length bks = min (nat (sint limit)) (length window))
         \<and> sint moreResults = max 0 (min (sint moreResultsLimit) (int (length window) - sint limit))
         \<and> sint moreResults \<le> sint moreResultsLimit
         \<and> int (length (sql_limit_offset (sint (limit + moreResultsLimit)) (sint offset)
                  (map fts_docid (filter matches (books_fts lib)))))
               \<le> sint limit + sint moreResultsLimit"
proof -
  let ?found = "map fts_docid (filter matches (books_fts lib))"
  let ?L = "nat (sint limit)"
  let ?ids = "sql_limit_offset (sint (limit + moreResultsLimit)) (sint offset) ?found"
  have lim0: "limit \<noteq> 0"
    using assms(1) by auto
  have wlen: "length window < 2 ^ 63"
  proof -
    have "length window = length (filter matches (books_fts lib)) - nat (sint offset)"
      by (simp add: assms(7))
    also have "\<dots> \<le> length (filter matches (books_fts lib))"
      by (rule diff_le_self)
    also have "\<dots> \<le> length (books_fts lib)"
      by (rule length_filter_le)
    finally show ?thesis using assms(6) by simp
  qed
  have bl: "int (length (GetBooksByID lib (take ?L window))) \<le> sint limit"
  proof -
    have "length (GetBooksByID lib (take ?L window)) \<le> length (take ?L window)"
      by (rule length_GetBooksByID [OF assms(5)])
    then have "length (GetBooksByID lib (take ?L window)) \<le> ?L"
      by simp
    then show ?thesis using assms(1) by linarith
  qed
  have ids: "take ?L ?ids = take ?L window \<and> length ?ids < 2 ^ 63
             \<and> int (length ?ids) - sint limit \<le> sint moreResultsLimit
             \<and> (sint limit < int (length ?ids) \<longrightarrow>
                  int (length ?ids) = min (sint limit + sint moreResultsLimit) (int (length window)))
             \<and> (\<not> sint limit < int (length ?ids) \<longrightarrow>
                  ?ids = take ?L window
                  \<and> min (sint moreResultsLimit) (int (length window) - sint limit) \<le> 0)"
  proof (cases "sint limit + sint moreResultsLimit < 2 ^ 63")
    case True
    then have s: "sint (limit + moreResultsLimit) = sint limit + sint moreResultsLimit"
      using sint_add_nonneg [of limit moreResultsLimit] assms(1,3) by simp
    have i: "?ids = take (nat (sint limit + sint moreResultsLimit)) window"
      using assms(1,3) by (simp add: sql_limit_offset_def s assms(7))
    show ?thesis
      unfolding i using assms(1,3) wlen
      by (auto simp: min_def take_all_iff nat_le_iff nat_add_distrib)
  next
    case False
    then have s: "sint (limit + moreResultsLimit) < 0"
      using sint_add_nonneg [of limit moreResultsLimit] assms(1,3) by simp
    have i: "?ids = window"
      using s by (simp add: sql_limit_offset_def assms(7))
    show ?thesis
      unfolding i using assms(1,3) wlen False
      by (auto simp: min_def take_all_iff nat_le_iff)
  qed
  have old: "\<exists>bks moreResults.
           SearchPaged mtch lib terms offset limit moreResultsLimit = Inr (bks, moreResults)
         \<and> bks = GetBooksByID lib (take (nat (sint limit)) window)
         \<and> int (length bks) \<le> sint limit
         \<and> sint moreResults = max 0 (min (sint moreResultsLimit) (int (length window) - sint limit))
         \<and> sint moreResults \<le> sint moreResultsLimit
         \<and> int (length (sql_limit_offset (sint (limit + moreResultsLimit)) (sint offset)
                  (map fts_docid (filter matches (books_fts lib)))))
               \<le> sint limit + sint moreResultsLimit"
  proof (cases "sint limit < int (length ?ids)")
    case True
    have m: "sint (word_of_nat (length ?ids) - limit) = int (length ?ids) - sint limit"
      using ids True assms(1) by (intro sint_more) simp_all
    have "SearchPaged mtch lib terms offset limit moreResultsLimit =
            Inr (GetBooksByID lib (take ?L ?ids), word_of_nat (length ?ids) - limit)"
      using True assms(1) lim0 by (simp add: SearchPaged_def assms(4) Let_def)
    then show ?thesis
      using ids True bl m by (auto simp: min_def max_def)
  next
    case False
    have "SearchPaged mtch lib terms offset limit moreResultsLimit =
            Inr (GetBooksByID lib ?ids, 0)"
      using False assms(1) lim0 by (simp add: SearchPaged_def assms(4) Let_def)
    then show ?thesis
      using ids False bl assms(3) by (auto simp: max_def)
  qed
  then obtain bks moreResults where
    r: "SearchPaged mtch lib terms offset limit moreResultsLimit = Inr (bks, moreResults)"
    and b: "bks = GetBooksByID lib (take ?L window)"
    and bl': "int (length bks) \<le> sint limit"
    and m1: "sint moreResults = max 0 (min (sint moreResultsLimit) (int (length window) - sint limit))"
    and m2: "sint moreResults \<le> sint moreResultsLimit"
    and q: "int (length ?ids) \<le> sint limit + sint moreResultsLimit"
    by blast
  have i: "map bk_ID bks = filter (\<lambda>i. i \<in> set (take ?L window)) (map b_id (books lib))"
    unfolding b by (rule GetBooksByID_ids)
  have rows: "distinct (map f_id (files lib)) \<longrightarrow>
              bks =
                map (\<lambda>r. \<lparr>bk_ID = b_id r, bk_Series = b_series r, bk_Title = b_title r,
                    bk_Authors = concat (map
                      (\<lambda>l. map a_name (filter (\<lambda>a. a_id a = ba_author_id l) (authors lib)))
                      (filter (\<lambda>l. ba_book_id l = b_id r) (sort_key ba_id (books_authors lib)))),
                    bk_Files = map
                      (\<lambda>f. \<lparr>bf_ID = f_id f, bf_Extension = f_extension f,
                            bf_OriginalFilename = f_original_filename f,
                            bf_CurrentFilename = f_filename f, bf_FileSize = f_file_size f,
                            bf_FileMtime = f_file_mtime f, bf_Hash = f_hash f,
                            bf_Source = f_source f,
                            bf_Tags = concat (map
                              (\<lambda>l. map t_name (filter (\<lambda>t. t_id t = ft_tag_id l) (tags lib)))
                              (filter (\<lambda>l. ft_file_id l = f_id f)
                                (sort_key ft_id (files_tags lib))))\<rparr>)
                      (filter (\<lambda>f. f_book_id f = b_id r) (files lib))\<rparr>)
                (filter (\<lambda>r. b_id r \<in> set (take (nat (sint limit)) window)) (books lib))"
    unfolding b using GetBooksByID_rows [of lib "take ?L window"] by blast
  have full: "length bks = min ?L (length window)"
    if "distinct (map fts_docid (books_fts lib))
        \<and> set (map fts_docid (books_fts lib)) \<subseteq> set (map b_id (books lib))"
  proof -
    have "distinct (map fts_docid (filter matches (books_fts lib)))"
      using that by (simp add: distinct_map_filter)
    then have dw: "distinct (take ?L window)"
      by (simp add: assms(7))
    have "set (take ?L window) \<subseteq> set window"
      by (rule set_take_subset)
    also have "\<dots> \<subseteq> set (map fts_docid (filter matches (books_fts lib)))"
      unfolding assms(7) by (rule set_drop_subset)
    also have "\<dots> \<subseteq> set (map fts_docid (books_fts lib))"
      by auto
    finally have sub: "set (take ?L window) \<subseteq> set (map b_id (books lib))"
      using that by blast
    have "length bks = length (map bk_ID bks)"
      by simp
    also have "\<dots> = length (take ?L window)"
      unfolding i by (rule length_filter_members [OF assms(5) dw sub])
    finally show ?thesis
      by simp
  qed
  show ?thesis
    using r b i rows bl' full m1 m2 q by blast
qed

theorem SearchPaged_window_witness:
  "SearchPaged (\<lambda>terms. Some (\<lambda>d. True)) lib_ex ''x'' 1 1 5 =
     Inr ([\<lparr>bk_ID = 2, bk_Series = '''', bk_Title = ''Talisman'', bk_Authors = [''King'', ''Straub''],
            bk_Files = [file_two]\<rparr>], 0)
   \<and> SearchPaged (\<lambda>terms. Some (\<lambda>d. True)) lib_ex ''x'' 0 1 5 =
     Inr ([\<lparr>bk_ID = 1, bk_Series = '''', bk_Title = ''Shining'', bk_Authors = [''King''],
            bk_Files = [file_one, file_three]\<rparr>], 1)"
proof -
  let ?mtch = "\<lambda>terms :: string. Some (\<lambda>d :: fts_row. True)"
  have d: "distinct (map b_id (books lib_ex))"
    by (simp add: lib_ex_def)
  have l: "length (books_fts lib_ex) < 2 ^ 63"
    by (simp add: lib_ex_def)
  have df: "distinct (map f_id (files lib_ex))"
    by (simp add: lib_ex_def)
  have w0: "[1, 2] = drop (nat (sint (0 :: 64 word))) (map fts_docid (filter (\<lambda>d. True) (books_fts lib_ex)))"
    by (simp add: lib_ex_def)
  have w1: "[2] = drop (nat (sint (1 :: 64 word))) (map fts_docid (filter (\<lambda>d. True) (books_fts lib_ex)))"
    by (simp add: lib_ex_def)
  have g1: "GetBooksByID lib_ex [1] =
     [\<lparr>bk_ID = 1, bk_Series = '''', bk_Title = ''Shining'', bk_Authors = [''King''],
            bk_Files = [file_one, file_three]\<rparr>]"
    by code_simp
  have g2: "GetBooksByID lib_ex [2] =
     [\<lparr>bk_ID = 2, bk_Series = '''', bk_Title = ''Talisman'', bk_Authors = [''King'', ''Straub''],
            bk_Files = [file_two]\<rparr>]"
    by code_simp
  obtain bks moreResults where
    r: "SearchPaged ?mtch lib_ex ''x'' 0 1 5 = Inr (bks, moreResults)"
    and b: "bks = GetBooksByID lib_ex (take (nat (sint (1 :: 64 word))) [1, 2])"
    and m: "sint moreResults = max 0 (min (sint (5 :: 64 word)) (int (length [1 :: int, 2]) - sint (1 :: 64 word)))"
    using SearchPaged_window [of 1 0 5 ?mtch "''x''" "\<lambda>d. True" lib_ex "[1, 2]", OF _ _ _ _ d l w0]
    by auto
  have "sint moreResults = sint (1 :: 64 word)"
    using m by simp
  then have "moreResults = 1"
    by (simp only: signed_word_eqI)
  then have first: "SearchPaged ?mtch lib_ex ''x'' 0 1 5 = Inr (GetBooksByID lib_ex [1], 1)"
    using r b by simp
  obtain bks' moreResults' where
    r': "SearchPaged ?mtch lib_ex ''x'' 1 1 5 = Inr (bks', moreResults')"
    and b': "bks' = GetBooksByID lib_ex (take (nat (sint (1 :: 64 word))) [2])"
    and m': "sint moreResults' = max 0 (min (sint (5 :: 64 word)) (int (length [2 :: int]) - sint (1 :: 64 word)))"
    using SearchPaged_window [of 1 1 5 ?mtch "''x''" "\<lambda>d. True" lib_ex "[2]", OF _ _ _ _ d l w1]
    by auto
  have "sint moreResults' = sint (0 :: 64 word)"
    using m' by simp
  then have "moreResults' = 0"
    by (simp only: signed_word_eqI)
  then have second: "SearchPaged ?mtch lib_ex ''x'' 1 1 5 = Inr (GetBooksByID lib_ex [2], 0)"
    using r' b' by simp
  show ?thesis
    using first second by (simp only: g1 g2)
qed

section \<open>DeleteFile\<close>

text \<open>
  When the file is the only file of its book, the two reads of \<^verbatim>\<open>deleteFile\<close> see
  the book with this one file.
\<close>

lemma only_file_reads:
  assumes "distinct (map f_id (files lib))"
    and "distinct (map f_filename (files lib))"
    and "distinct (map b_id (books lib))"
    and "row \<in> set (files lib)"
    and "bf_ID bf = f_id row" and "bf_CurrentFilename bf = f_filename row"
    and "r \<in> set (books lib)" and "b_id r = f_book_id row"
    and "\<forall>f\<in>set (files lib). f_book_id f = f_book_id row \<longrightarrow> f = row"
    and "b = \<lparr>bk_ID = f_book_id row, bk_Series = b_series r, bk_Title = b_title r,
             bk_Authors = lookup (getAuthorsByBookIds lib [f_book_id row]) (f_book_id row),
             bk_Files = [scan_file (getTagsByFileIds lib [f_id row]) row]\<rparr>"
  shows "filter (\<lambda>f. f_id f = f_id row) (files lib) = [row]"
    and "GetBooksByID lib [f_book_id row] = [b]"
    and "IsLastFile lib bf = Inr True"
proof -
  let ?B = "f_book_id row"
  have dfiles: "distinct (files lib)"
    using assms(1) by (simp add: distinct_map)
  show byid: "filter (\<lambda>f. f_id f = f_id row) (files lib) = [row]"
    using filter_key_singleton [OF assms(1) assms(4)] by simp
  have byname: "filter (\<lambda>f. f_filename f = f_filename row) (files lib) = [row]"
    using filter_key_singleton [OF assms(2) assms(4)] by simp
  have bybook: "filter (\<lambda>f. f_book_id f = ?B) (files lib) = [row]"
    using dfiles assms(4,9) by (intro filter_only) simp_all
  have "getBooksByID lib [?B] = [b]"
    using getBooksByID_single [OF assms(3) assms(7)]
    by (simp add: assms(8) bybook getFilesByID_def byid assms(10))
  then show bks: "GetBooksByID lib [?B] = [b]"
    by (simp add: GetBooksByID_def)
  show "IsLastFile lib bf = Inr True"
    by (simp add: IsLastFile_def GetBookIDByFilename_def assms(6) byname bks assms(10))
qed

text \<open>
  Claim C4. Let \<open>row\<close> be the row of the file handed to \<open>DeleteFile\<close>, the only file of
  its book, in a library whose file ids, file names, book ids and (file, tag) links are
  unique, as the schema demands. Then \<open>DeleteFile\<close> succeeds; the file row and the book
  row are gone and no other row of the two tables is; an author is removed exactly when
  it is linked to the book and has one link in all, and every author linked to another
  book stays; a tag is removed exactly when the deleted file is the only file it is
  linked to. The tags are those \<^verbatim>\<open>cleanupTags\<close> leaves, and \<^verbatim>\<open>cleanupTags\<close> runs
  while the file row is still there.
\<close>

theorem DeleteFile_only_file:
  assumes "distinct (map f_id (files lib))"
    and "distinct (map f_filename (files lib))"
    and "distinct (map b_id (books lib))"
    and "distinct (map (\<lambda>l. (ft_file_id l, ft_tag_id l)) (files_tags lib))"
    and "row \<in> set (files lib)"
    and "bf_ID bf = f_id row" and "bf_CurrentFilename bf = f_filename row"
    and "f_book_id row \<in> set (map b_id (books lib))"
    and "\<forall>f\<in>set (files lib). f_book_id f = f_book_id row \<longrightarrow> f = row"
  shows "\<exists>lib'. DeleteFile lib bf = (lib', None)
      \<and> files lib' = filter (\<lambda>f. f \<noteq> row) (files lib)
      \<and> books lib' = filter (\<lambda>b. b_id b \<noteq> f_book_id row) (books lib)
      \<and> (\<forall>a. a \<in> set (authors lib') \<longleftrightarrow> a \<in> set (authors lib) \<and>
             \<not> ((\<exists>l\<in>set (books_authors lib).
                     ba_author_id l = a_id a \<and> ba_book_id l = f_book_id row)
                \<and> length (filter (\<lambda>l. ba_author_id l = a_id a) (books_authors lib)) = 1))
      \<and> (\<forall>a\<in>set (authors lib).
             (\<exists>l\<in>set (books_authors lib).
                 ba_author_id l = a_id a \<and> ba_book_id l \<noteq> f_book_id row)
             \<longrightarrow> a \<in> set (authors lib'))
      \<and> (\<forall>t. t \<in> set (tags lib') \<longleftrightarrow> t \<in> set (tags lib) \<and>
             ft_file_id ` {l \<in> set (files_tags lib). ft_tag_id l = t_id t} \<noteq> {f_id row})
      \<and> tags lib' = tags (cleanupTags lib (f_id row))
      \<and> row \<in> set (files (cleanupTags lib (f_id row)))"
proof -
  let ?B = "f_book_id row"
  obtain r where r: "r \<in> set (books lib)" "b_id r = ?B"
    using assms(8) by auto
  define b where "b = \<lparr>bk_ID = ?B, bk_Series = b_series r, bk_Title = b_title r,
             bk_Authors = lookup (getAuthorsByBookIds lib [?B]) ?B,
             bk_Files = [scan_file (getTagsByFileIds lib [f_id row]) row]\<rparr>"
  note s1 = only_file_reads [OF assms(1,2,3,5,6,7) r assms(9) b_def]
  have bid: "bk_ID b = ?B" and bfiles: "bk_Files b \<noteq> []"
    by (simp_all add: b_def)
  define tx1 where "tx1 = cleanupTags lib (f_id row)"
  define tx2 where "tx2 = delete_files (\<lambda>f. f_id f = f_id row) tx1"
  define tx4 where "tx4 = deleteBookFromSearch (deleteBook tx2 b) b"
  define lib' where
    "lib' = tx4\<lparr>books_fts := insort_key fts_docid (new_document b) (books_fts tx4)\<rparr>"
  have nodoc: "?B \<notin> set (map fts_docid (books_fts tx4))"
    by (auto simp: tx4_def deleteBookFromSearch_def delete_fts_def bid)
  have idx: "indexBookInSearch' tx4 b True = Inr lib'"
    using nodoc bfiles
    by (simp add: indexBookInSearch'_def insert_fts_def lib'_def new_document_def bid
        split: list.split)
  have "deleteFile lib lib bf = (lib', None)"
    unfolding deleteFile_def
    by (simp add: s1 assms(6) Let_def tx1_def [symmetric] tx2_def [symmetric]
        tx4_def [symmetric] idx)
  then have res: "DeleteFile lib bf = (lib', None)"
    by (simp add: DeleteFile_def)
  have idrow: "f_id f \<noteq> f_id row \<longleftrightarrow> f \<noteq> row" if "f \<in> set (files lib)" for f
    using assms(1,5) that by (auto simp: distinct_map inj_on_def)
  have fl: "files lib' = filter (\<lambda>f. f \<noteq> row) (files lib)"
  proof -
    have "files lib' = filter (\<lambda>f. f_book_id f \<noteq> ?B) (filter (\<lambda>f. f_id f \<noteq> f_id row) (files lib))"
      using r by (simp add: lib'_def tx4_def deleteBookFromSearch_def delete_fts_def
          deleteBook_frame tx2_def tx1_def bid filter_key_singleton [OF assms(3) r(1), simplified r(2)])
    also have "\<dots> = filter (\<lambda>f. f \<noteq> row) (files lib)"
      unfolding filter_filter using assms(9) idrow by (intro filter_cong) auto
    finally show ?thesis .
  qed
  have bk: "books lib' = filter (\<lambda>b. b_id b \<noteq> ?B) (books lib)"
    by (simp add: lib'_def tx4_def deleteBookFromSearch_def delete_fts_def
          deleteBook_frame tx2_def tx1_def bid)
  have au: "authors lib' = filter (\<lambda>a. \<not> (a_id a \<in> ba_author_id ` {l \<in> set (books_authors lib). ba_book_id l = ?B}
                    \<and> length (filter (\<lambda>l. ba_author_id l = a_id a) (books_authors lib)) = 1))
       (authors lib)"
    by (simp add: lib'_def tx4_def deleteBookFromSearch_def delete_fts_def
          deleteBook_frame tx2_def tx1_def bid)
  have tg: "tags lib' = tags tx1"
    by (simp add: lib'_def tx4_def deleteBookFromSearch_def delete_fts_def
          deleteBook_frame tx2_def)
  have a1: "\<forall>a. a \<in> set (authors lib') \<longleftrightarrow> a \<in> set (authors lib) \<and>
             \<not> ((\<exists>l\<in>set (books_authors lib).
                     ba_author_id l = a_id a \<and> ba_book_id l = f_book_id row)
                \<and> length (filter (\<lambda>l. ba_author_id l = a_id a) (books_authors lib)) = 1)"
    unfolding au by (auto simp: image_iff)
  have a2: "\<forall>a\<in>set (authors lib).
             (\<exists>l\<in>set (books_authors lib).
                 ba_author_id l = a_id a \<and> ba_book_id l \<noteq> f_book_id row)
             \<longrightarrow> a \<in> set (authors lib')"
  proof (intro ballI impI)
    fix a assume a: "a \<in> set (authors lib)"
      and "\<exists>l\<in>set (books_authors lib). ba_author_id l = a_id a \<and> ba_book_id l \<noteq> ?B"
    then obtain l where l: "l \<in> set (books_authors lib)" "ba_author_id l = a_id a" "ba_book_id l \<noteq> ?B"
      by blast
    have "length (filter (\<lambda>l. ba_author_id l = a_id a) (books_authors lib)) \<noteq> 1"
      if "l' \<in> set (books_authors lib)" "ba_author_id l' = a_id a" "ba_book_id l' = ?B" for l'
    proof -
      have "l' \<noteq> l" using that l by auto
      then have "2 \<le> length (filter (\<lambda>l. ba_author_id l = a_id a) (books_authors lib))"
        using that l by (intro two_in_filter [of l' _ l]) simp_all
      then show ?thesis by simp
    qed
    then show "a \<in> set (authors lib')"
      using a unfolding a1 [rule_format] by blast
  qed
  have t1: "\<forall>t. t \<in> set (tags lib') \<longleftrightarrow> t \<in> set (tags lib) \<and>
             ft_file_id ` {l \<in> set (files_tags lib). ft_tag_id l = t_id t} \<noteq> {f_id row}"
    unfolding tg tx1_def cleanupTags_tags only_link_count [OF assms(4)] by simp
  have "row \<in> set (files (cleanupTags lib (f_id row)))"
    using assms(5) by simp
  then show ?thesis
    using res fl bk a1 a2 t1 tg unfolding tx1_def by blast
qed

theorem DeleteFile_only_file_witness:
  "snd (DeleteFile lib_ex file_two) = None
   \<and> map f_id (files (fst (DeleteFile lib_ex file_two))) = [1, 3]
   \<and> map b_id (books (fst (DeleteFile lib_ex file_two))) = [1]
   \<and> map a_name (authors lib_ex) = [''King'', ''Straub'']
   \<and> map a_name (authors (fst (DeleteFile lib_ex file_two))) = [''King'']
   \<and> map t_name (tags lib_ex) = [''horror'', ''fantasy'']
   \<and> map t_name (tags (fst (DeleteFile lib_ex file_two))) = [''horror'']"
proof -
  let ?row = "files lib_ex ! 1"
  have "\<exists>lib'. DeleteFile lib_ex file_two = (lib', None)
      \<and> files lib' = filter (\<lambda>f. f \<noteq> ?row) (files lib_ex)
      \<and> books lib' = filter (\<lambda>b. b_id b \<noteq> f_book_id ?row) (books lib_ex)
      \<and> (\<forall>a. a \<in> set (authors lib') \<longleftrightarrow> a \<in> set (authors lib_ex) \<and>
             \<not> ((\<exists>l\<in>set (books_authors lib_ex).
                     ba_author_id l = a_id a \<and> ba_book_id l = f_book_id ?row)
                \<and> length (filter (\<lambda>l. ba_author_id l = a_id a) (books_authors lib_ex)) = 1))
      \<and> (\<forall>a\<in>set (authors lib_ex).
             (\<exists>l\<in>set (books_authors lib_ex).
                 ba_author_id l = a_id a \<and> ba_book_id l \<noteq> f_book_id ?row)
             \<longrightarrow> a \<in> set (authors lib'))
      \<and> (\<forall>t. t \<in> set (tags lib') \<longleftrightarrow> t \<in> set (tags lib_ex) \<and>
             ft_file_id ` {l \<in> set (files_tags lib_ex). ft_tag_id l = t_id t} \<noteq> {f_id ?row})
      \<and> tags lib' = tags (cleanupTags lib_ex (f_id ?row))
      \<and> ?row \<in> set (files (cleanupTags lib_ex (f_id ?row)))"
  proof (rule DeleteFile_only_file)
    show "distinct (map f_id (files lib_ex))" by (simp add: lib_ex_def)
    show "distinct (map f_filename (files lib_ex))" by (simp add: lib_ex_def)
    show "distinct (map b_id (books lib_ex))" by (simp add: lib_ex_def)
    show "distinct (map (\<lambda>l. (ft_file_id l, ft_tag_id l)) (files_tags lib_ex))"
      by (simp add: lib_ex_def)
    show "?row \<in> set (files lib_ex)" by (simp add: lib_ex_def)
    show "bf_ID file_two = f_id ?row" by (simp add: lib_ex_def file_two_def)
    show "bf_CurrentFilename file_two = f_filename ?row" by (simp add: lib_ex_def file_two_def)
    show "f_book_id ?row \<in> set (map b_id (books lib_ex))" by (simp add: lib_ex_def)
    show "\<forall>f\<in>set (files lib_ex). f_book_id f = f_book_id ?row \<longrightarrow> f = ?row"
      by (simp add: lib_ex_def)
  qed
  then obtain lib' where r: "DeleteFile lib_ex file_two = (lib', None)"
    and f: "files lib' = filter (\<lambda>f. f \<noteq> ?row) (files lib_ex)"
    and b: "books lib' = filter (\<lambda>b. b_id b \<noteq> f_book_id ?row) (books lib_ex)"
    by blast
  have "map f_id (filter (\<lambda>f. f \<noteq> ?row) (files lib_ex)) = [1, 3]"
    by (simp add: lib_ex_def)
  moreover have "map b_id (filter (\<lambda>b. b_id b \<noteq> f_book_id ?row) (books lib_ex)) = [1]"
    by (simp add: lib_ex_def)
  moreover have "map a_name (authors lib_ex) = [''King'', ''Straub'']
      \<and> map a_name (authors (fst (DeleteFile lib_ex file_two))) = [''King'']
      \<and> map t_name (tags lib_ex) = [''horror'', ''fantasy'']
      \<and> map t_name (tags (fst (DeleteFile lib_ex file_two))) = [''horror'']"
    by code_simp
  ultimately show ?thesis
    using r f b by simp
qed

text \<open>
  Claim C2. The book \<^verbatim>\<open>deleteFile\<close> re-indexes is not read in its transaction: it
  comes from \<^verbatim>\<open>lib.GetBooksByID\<close>, which sees the library as it was before the
  file row was deleted. In \<open>lib_ex\<close>, deleting the file 2, the last file of the book 2,
  removes the book and leaves its search document in place; deleting the file 3, one of
  the two files of the book 1, leaves the extension and the source of the file 3 in the
  document of the book 1. Both calls return no error and commit.
\<close>

theorem DeleteFile_reindexes_from_stale_read:
  "snd (DeleteFile lib_ex file_two) = None
   \<and> map b_id (books (fst (DeleteFile lib_ex file_two))) = [1]
   \<and> map f_id (files (fst (DeleteFile lib_ex file_two))) = [1, 3]
   \<and> map fts_docid (books_fts (fst (DeleteFile lib_ex file_two))) = [1, 2]
   \<and> map fts_title (books_fts (fst (DeleteFile lib_ex file_two))) = [''Shining'', ''Talisman'']
   \<and> books_fts (fst (DeleteFile lib_ex file_two)) = books_fts lib_ex
   \<and> snd (DeleteFile lib_ex file_three) = None
   \<and> map f_id (files (fst (DeleteFile lib_ex file_three))) = [1, 2]
   \<and> map bf_Extension (bk_Files (hd (getBooksByID (fst (DeleteFile lib_ex file_three)) [1])))
       = [''epub'']
   \<and> map fts_extension (books_fts (fst (DeleteFile lib_ex file_three))) = [''epub pdf'', ''epub'']
   \<and> map fts_source (books_fts (fst (DeleteFile lib_ex file_three))) = [''web scan'', ''cd'']"
  by code_simp

text \<open>
  Reading the book inside the transaction would not rebuild the document of a last file
  either: after the file row is deleted the book is read without files, and
  \<^verbatim>\<open>book.Files[0]\<close> panics.
\<close>

lemma reindex_read_in_transaction_panics:
  "(let tx2 = delete_files (\<lambda>f. f_id f = bf_ID file_two) (cleanupTags lib_ex (bf_ID file_two));
        b = hd (getBooksByID tx2 [2])
    in bk_Files b = []
       \<and> indexBookInSearch' (deleteBookFromSearch (deleteBook tx2 b) b) b True
           = Inl PanicIndexOutOfRange)"
  by code_simp

section \<open>MergeBooks\<close>




end
